theory Spec2Isabelle
  imports Main "HOL-Library.List_Lexorder" "HOL-Library.Char_ord" "HOL-Library.Sublist"
begin

section \<open>Data model\<close>

text \<open>
  The message API of the server (package \<open>api\<close>): the handlers of \<open>MessageAPI\<close>, the
  paging helper \<open>buildWithPaging\<close> and the two ports the handlers talk to, the
  \<open>MessageDatabase\<close> and the \<open>Notifier\<close>.

  Go's \<open>uint\<close> values (message, application and user IDs, the \<open>since\<close> cursor) are
  natural numbers: the code only compares and prints them. Go's \<open>int\<close> values (the
  limit, the page size, HTTP status codes) are integers; the only arithmetic on them is
  \<open>params.Limit + 1\<close>, on a limit that the binding tags keep within 1..200.
  Strings are byte strings (\<open>char list\<close>), as in Go. An \<open>error\<close> is its message.
\<close>

type_synonym error = string

text \<open>
  Modelled from the spec: \<open>model.Message\<close>, \<open>model.MessageExternal\<close>,
  \<open>model.Application\<close> and \<open>model.ApplicationMessage\<close> are declared in the \<open>model\<close>
  package, whose files are not among the sources. Their fields follow the entities of
  the specification: a message has an identity, an owning application, a title, a body,
  a priority, extras and a creation timestamp; an application has an identity, an owning
  user, a display name and a token. The handlers read \<open>ID\<close>, \<open>ApplicationID\<close> and
  \<open>Title\<close> of a message and \<open>ID\<close>, \<open>UserID\<close> and \<open>Name\<close> of an application.
\<close>

record Message =
  ID :: nat
  ApplicationID :: nat
  Body :: string
  Title :: string
  Priority :: int
  Extras :: string
  Date :: nat

record MessageExternal =
  ext_ID :: nat
  ext_ApplicationID :: nat
  ext_Body :: string
  ext_Title :: string
  ext_Priority :: int
  ext_Extras :: string
  ext_Date :: nat

record Application =
  app_ID :: nat
  UserID :: nat
  Name :: string
  Token :: string

record ApplicationMessage =
  req_Body :: string
  req_Title :: string
  req_Priority :: int
  req_Extras :: string

text \<open>\<open>pagingParams\<close>: \<open>Limit int `binding:"min=1,max=200"`\<close>, \<open>Since uint `binding:"min=0"`\<close>.\<close>

record pagingParams =
  Limit :: int
  Since :: nat

text \<open>The constraints that the binding tags of \<open>pagingParams\<close> put on a bound value.\<close>

definition pagingParams_tags :: "pagingParams \<Rightarrow> bool" where
  "pagingParams_tags p = (1 \<le> Limit p \<and> Limit p \<le> 200 \<and> 0 \<le> Since p)"

text \<open>\<open>model.Paging\<close> and \<open>model.PagedMessages\<close>, with the fields \<open>buildWithPaging\<close> sets.\<close>

record Paging =
  Size :: int
  paging_Limit :: int
  Next :: string
  paging_Since :: nat

record PagedMessages =
  Paging :: Paging
  Messages :: "MessageExternal list"

text \<open>
  \<open>model.Event\<close>: what \<open>Notify\<close> is given. \<open>CreateMessage\<close> passes the message itself,
  the delete handlers pass a \<open>model.MessageDeletions\<close> holding the removed messages.
\<close>

datatype Event =
  MessageCreated Message
  | MessageDeletions "Message list"

text \<open>Run-time panics of the Go code that the handlers can reach.\<close>

datatype panic =
  SliceBoundsOutOfRange
  | IndexOutOfRange
  | NilPointerDereference

section \<open>The pieces of \<open>strconv\<close>, \<open>strings\<close> and \<open>net/url\<close> that the handlers call\<close>

text \<open>\<open>strconv.FormatUint(n, 10)\<close> and \<open>strconv.Itoa\<close>: decimal digits, most significant first.\<close>

definition digit :: "nat \<Rightarrow> char" where
  "digit d = ''0123456789'' ! d"

fun FormatUint :: "nat \<Rightarrow> string" where
  "FormatUint n = (if n < 10 then [digit n] else FormatUint (n div 10) @ [digit (n mod 10)])"

declare FormatUint.simps [simp del]

definition Itoa :: "int \<Rightarrow> string" where
  "Itoa i = (if i < 0 then CHR ''-'' # FormatUint (nat (- i)) else FormatUint (nat i))"

text \<open>
  \<open>strings.TrimSpace\<close> removes leading and trailing white space as \<open>unicode.IsSpace\<close>
  defines it: tab, line feed, vertical tab, form feed, carriage return, space, U+0085,
  U+00A0, U+1680, U+2000 to U+200A, U+2028, U+2029, U+202F, U+205F and U+3000. On the
  bytes of a string these characters are their UTF-8 encodings.
\<close>

definition whitespace :: "string list" where
  "whitespace =
     [[CHR 0x09], [CHR 0x0A], [CHR 0x0B], [CHR 0x0C], [CHR 0x0D], [CHR 0x20],
      [CHR 0xC2, CHR 0x85], [CHR 0xC2, CHR 0xA0],
      [CHR 0xE1, CHR 0x9A, CHR 0x80],
      [CHR 0xE2, CHR 0x80, CHR 0x80], [CHR 0xE2, CHR 0x80, CHR 0x81],
      [CHR 0xE2, CHR 0x80, CHR 0x82], [CHR 0xE2, CHR 0x80, CHR 0x83],
      [CHR 0xE2, CHR 0x80, CHR 0x84], [CHR 0xE2, CHR 0x80, CHR 0x85],
      [CHR 0xE2, CHR 0x80, CHR 0x86], [CHR 0xE2, CHR 0x80, CHR 0x87],
      [CHR 0xE2, CHR 0x80, CHR 0x88], [CHR 0xE2, CHR 0x80, CHR 0x89],
      [CHR 0xE2, CHR 0x80, CHR 0x8A],
      [CHR 0xE2, CHR 0x80, CHR 0xA8], [CHR 0xE2, CHR 0x80, CHR 0xA9],
      [CHR 0xE2, CHR 0x80, CHR 0xAF],
      [CHR 0xE2, CHR 0x81, CHR 0x9F],
      [CHR 0xE3, CHR 0x80, CHR 0x80]]"

text \<open>
  \<open>spaceWidth s\<close> is the number of bytes of the white-space character that \<open>s\<close> starts
  with, and 0 when \<open>s\<close> starts with none; \<open>lastSpaceWidth s\<close> is the same for the
  character that \<open>s\<close> ends with (decoding the last character of a string yields a
  white-space character exactly when the string ends with the encoding of one).
\<close>

definition spaceWidth :: "string \<Rightarrow> nat" where
  "spaceWidth s = (case find (\<lambda>w. prefix w s) whitespace of None \<Rightarrow> 0 | Some w \<Rightarrow> length w)"

definition lastSpaceWidth :: "string \<Rightarrow> nat" where
  "lastSpaceWidth s = (case find (\<lambda>w. suffix w s) whitespace of None \<Rightarrow> 0 | Some w \<Rightarrow> length w)"

text \<open>
  \<open>TrimLeftFunc(s, unicode.IsSpace)\<close> drops characters from the front while they are
  white space, \<open>TrimRightFunc(s, unicode.IsSpace)\<close> drops them from the back, and
  \<open>TrimSpace\<close> does both.
\<close>

function TrimLeft :: "string \<Rightarrow> string" where
  "TrimLeft s =
     (if s = [] \<or> spaceWidth s = 0 then s else TrimLeft (drop (spaceWidth s) s))"
  by pat_completeness auto
termination
  by (relation "measure length") simp_all

function TrimRight :: "string \<Rightarrow> string" where
  "TrimRight s =
     (if s = [] \<or> lastSpaceWidth s = 0 then s
      else TrimRight (take (length s - lastSpaceWidth s) s))"
  by pat_completeness auto
termination
  by (relation "measure length") simp_all

declare TrimLeft.simps [simp del] TrimRight.simps [simp del]

definition TrimSpace :: "string \<Rightarrow> string" where
  "TrimSpace s = TrimRight (TrimLeft s)"

text \<open>
  The specification's "empty or consisting only of white space": the string is a
  sequence of encodings of white-space characters.
\<close>

function whitespaceOnly :: "string \<Rightarrow> bool" where
  "whitespaceOnly s =
     (if s = [] then True
      else (\<exists>w\<in>set whitespace.
              if w \<noteq> [] \<and> prefix w s then whitespaceOnly (drop (length w) s) else False))"
  by pat_completeness auto
termination
  by (relation "measure length") auto

declare whitespaceOnly.simps [simp del]

text \<open>
  \<open>net/url\<close>. A \<open>url.URL\<close> is modelled by the four components the code reads or
  writes; host and path are kept in the form in which \<open>String\<close> prints them. A
  \<open>url.Values\<close> (a map from a key to the list of its values) is the list of its
  (key, value) pairs: the values of a key are the second components of the pairs with
  that key, in the order of the list.
\<close>

record URL =
  Scheme :: string
  Host :: string
  Path :: string
  RawQuery :: string

type_synonym Values = "(string \<times> string) list"

text \<open>\<open>Values.Add\<close> appends the value to the values of the key.\<close>

definition Add :: "Values \<Rightarrow> string \<Rightarrow> string \<Rightarrow> Values" where
  "Add v key val = v @ [(key, val)]"

text \<open>
  \<open>QueryEscape\<close>: letters, digits and \<open>-_.~\<close> stay, a space becomes \<open>+\<close>, every other
  byte becomes \<open>%XX\<close> in upper-case hexadecimal.
\<close>

definition shouldEscape :: "char \<Rightarrow> bool" where
  "shouldEscape c =
     (let n = (of_char c :: nat) in
      \<not> ((97 \<le> n \<and> n \<le> 122) \<or> (65 \<le> n \<and> n \<le> 90) \<or> (48 \<le> n \<and> n \<le> 57)
         \<or> c \<in> set ''-_.~''))"

definition upperhex :: "nat \<Rightarrow> char" where
  "upperhex d = ''0123456789ABCDEF'' ! d"

fun QueryEscape :: "string \<Rightarrow> string" where
  "QueryEscape [] = []"
| "QueryEscape (c # s) =
     (if shouldEscape c then
        (if c = CHR '' '' then [CHR ''+'']
         else [CHR ''%'', upperhex ((of_char c :: nat) div 16), upperhex ((of_char c :: nat) mod 16)])
      else [c]) @ QueryEscape s"

text \<open>
  \<open>QueryUnescape\<close>: \<open>%XX\<close> becomes the byte, \<open>+\<close> becomes a space; a \<open>%\<close> that two
  hexadecimal digits do not follow is an error.
\<close>

definition ishex :: "char \<Rightarrow> bool" where
  "ishex c =
     (let n = (of_char c :: nat) in
      (48 \<le> n \<and> n \<le> 57) \<or> (97 \<le> n \<and> n \<le> 102) \<or> (65 \<le> n \<and> n \<le> 70))"

definition unhex :: "char \<Rightarrow> nat" where
  "unhex c =
     (let n = (of_char c :: nat) in
      if 48 \<le> n \<and> n \<le> 57 then n - 48
      else if 97 \<le> n \<and> n \<le> 102 then n - 97 + 10
      else if 65 \<le> n \<and> n \<le> 70 then n - 65 + 10
      else 0)"

fun QueryUnescape :: "string \<Rightarrow> string option" where
  "QueryUnescape [] = Some []"
| "QueryUnescape (c # s) =
     (if c = CHR ''%'' then
        (case s of
           a # b # r \<Rightarrow>
             (if ishex a \<and> ishex b then
                map_option ((#) (char_of (unhex a * 16 + unhex b))) (QueryUnescape r)
              else None)
         | _ \<Rightarrow> None)
      else if c = CHR ''+'' then map_option ((#) (CHR '' '')) (QueryUnescape s)
      else map_option ((#) c) (QueryUnescape s))"

text \<open>\<open>strings.Cut\<close>: the text before the first separator and the text after it.\<close>

definition Cut :: "string \<Rightarrow> char \<Rightarrow> string \<times> string" where
  "Cut s sep = (takeWhile (\<lambda>c. c \<noteq> sep) s, drop 1 (dropWhile (\<lambda>c. c \<noteq> sep) s))"

text \<open>
  \<open>ParseQuery\<close>, as \<open>URL.Query\<close> uses it (errors are dropped): the query is cut at every
  \<open>&\<close>; a piece with a semicolon, an empty piece and a piece whose key or value does not
  unescape are skipped; every other piece adds its value to its key.
\<close>

function ParseQuery :: "string \<Rightarrow> Values" where
  "ParseQuery query =
     (if query = [] then []
      else
        (let key = fst (Cut query (CHR ''&'')) in
         if CHR '';'' \<in> set key then ParseQuery (snd (Cut query (CHR ''&'')))
         else if key = [] then ParseQuery (snd (Cut query (CHR ''&'')))
         else
           (case QueryUnescape (fst (Cut key (CHR ''=''))) of
              None \<Rightarrow> ParseQuery (snd (Cut query (CHR ''&'')))
            | Some k \<Rightarrow>
               (case QueryUnescape (snd (Cut key (CHR ''=''))) of
                  None \<Rightarrow> ParseQuery (snd (Cut query (CHR ''&'')))
                | Some v \<Rightarrow> (k, v) # ParseQuery (snd (Cut query (CHR ''&'')))))))"
  by pat_completeness auto
termination
proof -
  have shorter: "length (snd (Cut query (CHR ''&''))) < length query"
    if ne: "query \<noteq> []" for query :: string
  proof (cases "dropWhile (\<lambda>c. c \<noteq> CHR ''&'') query")
    case Nil
    with ne show ?thesis by (simp add: Cut_def del: dropWhile_eq_Nil_conv)
  next
    case (Cons c cs)
    have "length (dropWhile (\<lambda>c. c \<noteq> CHR ''&'') query) \<le> length query"
      by (rule length_dropWhile_le)
    with Cons show ?thesis by (simp add: Cut_def)
  qed
  show ?thesis
    by (relation "measure length") (simp_all add: shorter)
qed

declare ParseQuery.simps [simp del]

definition Query :: "URL \<Rightarrow> Values" where
  "Query u = ParseQuery (RawQuery u)"

text \<open>
  \<open>Values.Encode\<close>: the keys in ascending order, the values of a key in their order,
  each as \<open>key=value\<close> with both escaped, joined by \<open>&\<close>. Sorting the pairs by their key
  with a stable sort gives that order.
\<close>

fun encodePairs :: "string \<Rightarrow> Values \<Rightarrow> string" where
  "encodePairs buf [] = buf"
| "encodePairs buf (kv # rest) =
     encodePairs
       ((if buf \<noteq> [] then buf @ [CHR ''&''] else buf)
          @ QueryEscape (fst kv) @ [CHR ''=''] @ QueryEscape (snd kv))
       rest"

definition Encode :: "Values \<Rightarrow> string" where
  "Encode v = encodePairs [] (sort_key fst v)"

text \<open>
  \<open>URL.String\<close> on the four components: \<open>scheme:\<close>, then \<open>//host\<close>, then the path (made
  absolute when a host stands before it, and guarded by \<open>./\<close> when nothing stands before
  it and its first segment holds a colon), then \<open>?query\<close>.
\<close>

definition String :: "URL \<Rightarrow> string" where
  "String u =
     (let buf = (if Scheme u \<noteq> [] then Scheme u @ [CHR '':''] else []);
          buf = (if Scheme u \<noteq> [] \<or> Host u \<noteq> [] then
                   buf @ (if Host u \<noteq> [] \<or> Path u \<noteq> [] then ''//'' else []) @ Host u
                 else buf);
          buf = (if Path u \<noteq> [] \<and> hd (Path u) \<noteq> CHR ''/'' \<and> Host u \<noteq> [] then buf @ ''/''
                 else buf);
          buf = (if buf = [] \<and> CHR '':'' \<in> set (fst (Cut (Path u) (CHR ''/''))) then ''./''
                 else buf);
          buf = buf @ Path u
      in if RawQuery u \<noteq> [] then buf @ [CHR ''?''] @ RawQuery u else buf)"

section \<open>The request context, the ports and the outcome of a handler\<close>

text \<open>
  What a handler reads from its \<open>gin.Context\<close>: the acting user and the token that the
  authentication put there (\<open>auth.GetUserID\<close>, \<open>auth.GetTokenID\<close>), the URL that
  \<open>location.Get\<close> returns, the URL of the request, and the two bindings.
  \<open>MustBindWith\<close> is gin's query binding: given the parameters with their defaults it
  returns them with the query's values filled in, or the error with which it has aborted
  the request. \<open>Bind\<close> is the binding of the request body of a create request.
\<close>

record Context =
  GetUserID :: nat
  GetTokenID :: string
  Location :: URL
  RequestURL :: URL
  MustBindWith :: "pagingParams \<Rightarrow> error + pagingParams"
  Bind :: "error + ApplicationMessage"

text \<open>
  The \<open>MessageDatabase\<close> interface over a repository state \<open>'s\<close>. A method returns what
  the Go method returns (a nil pointer is \<open>None\<close>, a nil error is \<open>None\<close>) and the state
  after the call. \<open>CreateMessage\<close> is given a pointer to the message, so it also returns
  the message as the repository left it.
\<close>

record 's MessageDatabase =
  DB_GetMessagesByApplication :: "nat \<Rightarrow> 's \<Rightarrow> (Message list \<times> error option) \<times> 's"
  DB_GetMessagesByApplicationSince ::
    "nat \<Rightarrow> int \<Rightarrow> nat \<Rightarrow> 's \<Rightarrow> (Message list \<times> error option) \<times> 's"
  DB_GetApplicationByID :: "nat \<Rightarrow> 's \<Rightarrow> (Application option \<times> error option) \<times> 's"
  DB_GetMessagesByUser :: "nat \<Rightarrow> 's \<Rightarrow> (Message list \<times> error option) \<times> 's"
  DB_GetMessagesByUserSince ::
    "nat \<Rightarrow> int \<Rightarrow> nat \<Rightarrow> 's \<Rightarrow> (Message list \<times> error option) \<times> 's"
  DB_DeleteMessageByID :: "nat \<Rightarrow> 's \<Rightarrow> error option \<times> 's"
  DB_GetMessageByID :: "nat \<Rightarrow> 's \<Rightarrow> (Message option \<times> error option) \<times> 's"
  DB_DeleteMessagesByUser :: "nat \<Rightarrow> 's \<Rightarrow> error option \<times> 's"
  DB_DeleteMessagesByApplication :: "nat \<Rightarrow> 's \<Rightarrow> error option \<times> 's"
  DB_CreateMessage :: "Message \<Rightarrow> 's \<Rightarrow> (Message \<times> error option) \<times> 's"
  DB_GetApplicationByToken :: "string \<Rightarrow> 's \<Rightarrow> (Application option \<times> error option) \<times> 's"

text \<open>
  Every call that a handler makes on one of its two ports, in the order of the calls.
  \<open>Notify\<close> returns nothing, so a call of the notifier is its entry in this list.
\<close>

datatype Call =
  GetMessagesByApplication nat
  | GetMessagesByApplicationSince nat int nat
  | GetApplicationByID nat
  | GetMessagesByUser nat
  | GetMessagesByUserSince nat int nat
  | DeleteMessageByID nat
  | GetMessageByID nat
  | DeleteMessagesByUser nat
  | DeleteMessagesByApplication nat
  | CreateMessageCall Message
  | GetApplicationByToken string
  | Notify nat Event

record 's World =
  store :: 's
  calls :: "Call list"

definition call :: "Call \<Rightarrow> ('s \<Rightarrow> 'r \<times> 's) \<Rightarrow> 's World \<Rightarrow> 'r \<times> 's World" where
  "call c m w = (fst (m (store w)), \<lparr>store = snd (m (store w)), calls = calls w @ [c]\<rparr>)"

definition notify :: "nat \<Rightarrow> Event \<Rightarrow> 's World \<Rightarrow> 's World" where
  "notify userID event w = w\<lparr>calls := calls w @ [Notify userID event]\<rparr>"

text \<open>
  What a handler leaves in its context: a JSON response, an abort with a status and an
  error, a panic, or nothing at all (\<open>Returned\<close>; gin then answers 200 with an empty body).
\<close>

datatype Body =
  PagedBody PagedMessages
  | MessageBody MessageExternal

datatype Outcome =
  JSON int Body
  | AbortWithError int error
  | Panic panic
  | Returned

text \<open>
  Modelled from the spec: \<open>successOrAbort\<close> is defined in a file of this package that is
  not among the sources. A storage failure aborts the remaining steps of the operation and is
  surfaced as an internal-error response: with a nil error the call reports success and
  leaves the context alone (\<open>None\<close>); with an error it aborts the request with the given
  status and that error, and reports failure.
\<close>

definition successOrAbort :: "int \<Rightarrow> error option \<Rightarrow> Outcome option" where
  "successOrAbort code err = (case err of None \<Rightarrow> None | Some e \<Rightarrow> Some (AbortWithError code e))"

text \<open>
  Modelled from the spec: \<open>Message.ToExternal\<close> and \<open>ApplicationMessage.ToInternal\<close>
  belong to the \<open>model\<close> package, which is not among the sources. The external view of a message
  carries the same identity, application, title, body, priority, extras and timestamp.
  The internal form of a create request carries the request's title, body, priority and
  extras and the given application; identity and timestamp are still unset.
\<close>

definition ToExternal :: "Message \<Rightarrow> MessageExternal" where
  "ToExternal m =
     \<lparr>ext_ID = ID m, ext_ApplicationID = ApplicationID m, ext_Body = Body m,
      ext_Title = Title m, ext_Priority = Priority m, ext_Extras = Extras m,
      ext_Date = Date m\<rparr>"

definition ToInternal :: "ApplicationMessage \<Rightarrow> nat \<Rightarrow> Message" where
  "ToInternal r appID =
     \<lparr>ID = 0, ApplicationID = appID, Body = req_Body r, Title = req_Title r,
      Priority = req_Priority r, Extras = req_Extras r, Date = 0\<rparr>"

section \<open>Paging\<close>

text \<open>\<open>toExternalMessages\<close>: the loop over the indices of \<open>msg\<close> fills \<open>res\<close> in order.\<close>

fun toExternalMessages :: "Message list \<Rightarrow> MessageExternal list" where
  "toExternalMessages [] = []"
| "toExternalMessages (m # msg) = ToExternal m # toExternalMessages msg"

text \<open>
  \<open>buildWithPaging\<close>. The slice expression \<open>messages[:len(messages)-1]\<close> panics on an
  empty slice, and the index expression \<open>useMessages[len(useMessages)-1]\<close> panics on an
  empty \<open>useMessages\<close>; both are reachable only with a limit below 1.
\<close>

definition buildWithPaging :: "Context \<Rightarrow> pagingParams \<Rightarrow> Message list \<Rightarrow> panic + PagedMessages" where
  "buildWithPaging ctx paging messages =
     (if int (length messages) > Limit paging then
        (if messages = [] then Inl SliceBoundsOutOfRange
         else
           (let useMessages = take (length messages - 1) messages in
            if useMessages = [] then Inl IndexOutOfRange
            else
              (let since = ID (useMessages ! (length useMessages - 1));
                   url = (Location ctx)\<lparr>Path := Path (RequestURL ctx)\<rparr>;
                   query = Query url;
                   query = Add query ''limit'' (Itoa (Limit paging));
                   query = Add query ''since'' (FormatUint since);
                   url = url\<lparr>RawQuery := Encode query\<rparr>;
                   next = String url
               in Inr \<lparr>Paging = \<lparr>Size = int (length useMessages), paging_Limit = Limit paging,
                                  Next = next, paging_Since = since\<rparr>,
                       Messages = toExternalMessages useMessages\<rparr>)))
      else
        Inr \<lparr>Paging = \<lparr>Size = int (length messages), paging_Limit = Limit paging,
                       Next = [], paging_Since = 0\<rparr>,
             Messages = toExternalMessages messages\<rparr>)"

text \<open>\<open>withPaging\<close>: the parameters start at \<open>Limit: 100\<close> and are bound from the query.\<close>

definition withPaging ::
  "Context \<Rightarrow> (pagingParams \<Rightarrow> 'w \<Rightarrow> Outcome \<times> 'w) \<Rightarrow> 'w \<Rightarrow> Outcome \<times> 'w" where
  "withPaging ctx f w =
     (let params = \<lparr>Limit = 100, Since = 0\<rparr> in
      case MustBindWith ctx params of
        Inl err \<Rightarrow> (AbortWithError 400 err, w)
      | Inr params \<Rightarrow> f params w)"

text \<open>The step that \<open>GetMessages\<close> and \<open>GetMessagesWithApplication\<close> end with.\<close>

definition respondPage :: "Context \<Rightarrow> pagingParams \<Rightarrow> Message list \<Rightarrow> Outcome" where
  "respondPage ctx params messages =
     (case buildWithPaging ctx params messages of
        Inl p \<Rightarrow> Panic p
      | Inr page \<Rightarrow> JSON 200 (PagedBody page))"

section \<open>The handlers\<close>

text \<open>
  A handler takes the database \<open>a\<close> of its \<open>MessageAPI\<close>, the context and the world, and
  returns its outcome and the world after it. \<open>withID\<close> (not among the sources) parses the path
  parameter before the handler's body runs, so the handlers with an \<open>id\<close> are modelled
  from that body on, with the parsed \<open>id\<close> as an argument.
\<close>

definition GetMessages :: "'s MessageDatabase \<Rightarrow> Context \<Rightarrow> 's World \<Rightarrow> Outcome \<times> 's World" where
  "GetMessages a ctx w =
     (let userID = GetUserID ctx in
      withPaging ctx
        (\<lambda>params w.
           let ((messages, err), w) =
                 call (GetMessagesByUserSince userID (Limit params + 1) (Since params))
                   (DB_GetMessagesByUserSince a userID (Limit params + 1) (Since params)) w
           in case successOrAbort 500 err of
                Some aborted \<Rightarrow> (aborted, w)
              | None \<Rightarrow> (respondPage ctx params messages, w))
        w)"

definition GetMessagesWithApplication ::
  "'s MessageDatabase \<Rightarrow> Context \<Rightarrow> nat \<Rightarrow> 's World \<Rightarrow> Outcome \<times> 's World" where
  "GetMessagesWithApplication a ctx id' w =
     withPaging ctx
       (\<lambda>params w.
          let ((app, err), w) = call (GetApplicationByID id') (DB_GetApplicationByID a id') w
          in case successOrAbort 500 err of
               Some aborted \<Rightarrow> (aborted, w)
             | None \<Rightarrow>
                 (if app \<noteq> None \<and> UserID (the app) = GetUserID ctx then
                    (let ((messages, err), w) =
                           call (GetMessagesByApplicationSince id' (Limit params + 1) (Since params))
                             (DB_GetMessagesByApplicationSince a id' (Limit params + 1) (Since params)) w
                     in case successOrAbort 500 err of
                          Some aborted \<Rightarrow> (aborted, w)
                        | None \<Rightarrow> (respondPage ctx params messages, w))
                  else (AbortWithError 404 ''application does not exist'', w)))
       w"

definition DeleteMessages :: "'s MessageDatabase \<Rightarrow> Context \<Rightarrow> 's World \<Rightarrow> Outcome \<times> 's World" where
  "DeleteMessages a ctx w =
     (let userID = GetUserID ctx;
          ((messages, err), w) = call (GetMessagesByUser userID) (DB_GetMessagesByUser a userID) w
      in case successOrAbort 500 err of
           Some aborted \<Rightarrow> (aborted, w)
         | None \<Rightarrow>
             (let event = MessageDeletions messages;
                  w = notify (GetUserID ctx) event w;
                  (err, w) = call (DeleteMessagesByUser userID) (DB_DeleteMessagesByUser a userID) w
              in case successOrAbort 500 err of
                   Some aborted \<Rightarrow> (aborted, w)
                 | None \<Rightarrow> (Returned, w)))"

definition DeleteMessageWithApplication ::
  "'s MessageDatabase \<Rightarrow> Context \<Rightarrow> nat \<Rightarrow> 's World \<Rightarrow> Outcome \<times> 's World" where
  "DeleteMessageWithApplication a ctx id' w =
     (let ((application, err), w) = call (GetApplicationByID id') (DB_GetApplicationByID a id') w
      in case successOrAbort 500 err of
           Some aborted \<Rightarrow> (aborted, w)
         | None \<Rightarrow>
             (if application \<noteq> None \<and> UserID (the application) = GetUserID ctx then
                (let ((messages, err), w) =
                       call (GetMessagesByApplication id') (DB_GetMessagesByApplication a id') w
                 in case successOrAbort 500 err of
                      Some aborted \<Rightarrow> (aborted, w)
                    | None \<Rightarrow>
                        (let event = MessageDeletions messages;
                             w = notify (GetUserID ctx) event w;
                             (err, w) = call (DeleteMessagesByApplication id')
                                          (DB_DeleteMessagesByApplication a id') w
                         in case successOrAbort 500 err of
                              Some aborted \<Rightarrow> (aborted, w)
                            | None \<Rightarrow> (Returned, w)))
              else (AbortWithError 404 ''application does not exists'', w)))"

definition DeleteMessage ::
  "'s MessageDatabase \<Rightarrow> Context \<Rightarrow> nat \<Rightarrow> 's World \<Rightarrow> Outcome \<times> 's World" where
  "DeleteMessage a ctx id' w =
     (let ((msg, err), w) = call (GetMessageByID id') (DB_GetMessageByID a id') w
      in case successOrAbort 500 err of
           Some aborted \<Rightarrow> (aborted, w)
         | None \<Rightarrow>
             (case msg of
                None \<Rightarrow> (AbortWithError 404 ''message does not exist'', w)
              | Some msg \<Rightarrow>
                  (let ((app, err), w) =
                         call (GetApplicationByID (ApplicationID msg))
                           (DB_GetApplicationByID a (ApplicationID msg)) w
                   in case successOrAbort 500 err of
                        Some aborted \<Rightarrow> (aborted, w)
                      | None \<Rightarrow>
                          (if app \<noteq> None \<and> UserID (the app) = GetUserID ctx then
                             (let event = MessageDeletions [msg];
                                  w = notify (GetUserID ctx) event w;
                                  (err, w) = call (DeleteMessageByID id') (DB_DeleteMessageByID a id') w
                              in case successOrAbort 500 err of
                                   Some aborted \<Rightarrow> (aborted, w)
                                 | None \<Rightarrow> (Returned, w))
                           else (AbortWithError 404 ''message does not exist'', w)))))"

text \<open>
  \<open>CreateMessage\<close>. \<open>ctx.Bind\<close> aborts the request with 400 itself when it fails.
  \<open>application.ID\<close> dereferences the pointer that \<open>GetApplicationByToken\<close> returned; the
  handler does not compare it with nil first.
\<close>

definition CreateMessage :: "'s MessageDatabase \<Rightarrow> Context \<Rightarrow> 's World \<Rightarrow> Outcome \<times> 's World" where
  "CreateMessage a ctx w =
     (case Bind ctx of
        Inl err \<Rightarrow> (AbortWithError 400 err, w)
      | Inr appMessage \<Rightarrow>
          (let ((application, err), w) =
                 call (GetApplicationByToken (GetTokenID ctx))
                   (DB_GetApplicationByToken a (GetTokenID ctx)) w
           in case successOrAbort 500 err of
                Some aborted \<Rightarrow> (aborted, w)
              | None \<Rightarrow>
                  (case application of
                     None \<Rightarrow> (Panic NilPointerDereference, w)
                   | Some application \<Rightarrow>
                       (let message = ToInternal appMessage (app_ID application);
                            message = (if TrimSpace (Title message) = [] then
                                         message\<lparr>Title := Name application\<rparr>
                                       else message);
                            ((message', err), w) =
                              call (CreateMessageCall message) (DB_CreateMessage a message) w
                        in case successOrAbort 500 err of
                             Some aborted \<Rightarrow> (aborted, w)
                           | None \<Rightarrow>
                               (let w = notify (GetUserID ctx) (MessageCreated message') w
                                in (JSON 200 (MessageBody (ToExternal message')), w))))))"

section \<open>An in-memory repository and the specification's wording\<close>

text \<open>
  Modelled from the spec: the storage engine behind the \<open>MessageDatabase\<close> interface is
  not part of the sources. This in-memory repository follows the contract of the
  Repository Port: the unfiltered fetches return every message of the application or of
  the user's applications; the paged fetches return up to \<open>limit\<close> messages with an ID
  below \<open>since\<close> (0: no bound), ordered by descending ID; a lookup that finds nothing
  returns nil and no error; an operation named in \<open>failing\<close> fails with a storage error
  and changes nothing. It is the repository of the concrete runs below.
\<close>

record Store =
  storedMessages :: "Message list"
  storedApplications :: "Application list"
  failing :: "string list"

definition answer :: "Store \<Rightarrow> string \<Rightarrow> 'r \<Rightarrow> 'r \<Rightarrow> ('r \<times> error option) \<times> Store" where
  "answer s operation nothing result =
     (if operation \<in> set (failing s) then ((nothing, Some ''storage error''), s)
      else ((result, None), s))"

definition perform :: "Store \<Rightarrow> string \<Rightarrow> Store \<Rightarrow> error option \<times> Store" where
  "perform s operation s' =
     (if operation \<in> set (failing s) then (Some ''storage error'', s) else (None, s'))"

definition ofApplication :: "nat \<Rightarrow> Message \<Rightarrow> bool" where
  "ofApplication appID m = (ApplicationID m = appID)"

definition ofUser :: "Store \<Rightarrow> nat \<Rightarrow> Message \<Rightarrow> bool" where
  "ofUser s userID m =
     (case find (\<lambda>app. app_ID app = ApplicationID m) (storedApplications s) of
        None \<Rightarrow> False
      | Some app \<Rightarrow> UserID app = userID)"

definition pageOf :: "int \<Rightarrow> nat \<Rightarrow> Message list \<Rightarrow> Message list" where
  "pageOf limit since ms =
     take (nat limit) (rev (sort_key ID (filter (\<lambda>m. since = 0 \<or> ID m < since) ms)))"

definition memDB :: "Store MessageDatabase" where
  "memDB =
     \<lparr>DB_GetMessagesByApplication =
        (\<lambda>appID s. answer s ''GetMessagesByApplication'' []
           (filter (ofApplication appID) (storedMessages s))),
      DB_GetMessagesByApplicationSince =
        (\<lambda>appID limit since s. answer s ''GetMessagesByApplicationSince'' []
           (pageOf limit since (filter (ofApplication appID) (storedMessages s)))),
      DB_GetApplicationByID =
        (\<lambda>i s. answer s ''GetApplicationByID'' None
           (find (\<lambda>app. app_ID app = i) (storedApplications s))),
      DB_GetMessagesByUser =
        (\<lambda>userID s. answer s ''GetMessagesByUser'' []
           (filter (ofUser s userID) (storedMessages s))),
      DB_GetMessagesByUserSince =
        (\<lambda>userID limit since s. answer s ''GetMessagesByUserSince'' []
           (pageOf limit since (filter (ofUser s userID) (storedMessages s)))),
      DB_DeleteMessageByID =
        (\<lambda>i s. perform s ''DeleteMessageByID''
           (s\<lparr>storedMessages := filter (\<lambda>m. ID m \<noteq> i) (storedMessages s)\<rparr>)),
      DB_GetMessageByID =
        (\<lambda>i s. answer s ''GetMessageByID'' None (find (\<lambda>m. ID m = i) (storedMessages s))),
      DB_DeleteMessagesByUser =
        (\<lambda>userID s. perform s ''DeleteMessagesByUser''
           (s\<lparr>storedMessages := filter (\<lambda>m. \<not> ofUser s userID m) (storedMessages s)\<rparr>)),
      DB_DeleteMessagesByApplication =
        (\<lambda>appID s. perform s ''DeleteMessagesByApplication''
           (s\<lparr>storedMessages := filter (\<lambda>m. \<not> ofApplication appID m) (storedMessages s)\<rparr>)),
      DB_CreateMessage =
        (\<lambda>m s.
           if ''CreateMessage'' \<in> set (failing s) then ((m, Some ''storage error''), s)
           else
             (let m' = m\<lparr>ID := Suc (fold max (map ID (storedMessages s)) 0)\<rparr>
              in ((m', None), s\<lparr>storedMessages := storedMessages s @ [m']\<rparr>))),
      DB_GetApplicationByToken =
        (\<lambda>token s. answer s ''GetApplicationByToken'' None
           (find (\<lambda>app. Token app = token) (storedApplications s)))\<rparr>"

text \<open>The data of the concrete runs: two users, two applications, five messages.\<close>

definition mkMessage :: "nat \<Rightarrow> nat \<Rightarrow> string \<Rightarrow> Message" where
  "mkMessage i appID title =
     \<lparr>ID = i, ApplicationID = appID, Body = ''text'', Title = title, Priority = 0,
      Extras = [], Date = 0\<rparr>"

definition weatherBot :: Application where
  "weatherBot = \<lparr>app_ID = 1, UserID = 1, Name = ''Weather Bot'', Token = ''Atoken1''\<rparr>"

definition backupBot :: Application where
  "backupBot = \<lparr>app_ID = 2, UserID = 2, Name = ''Backup'', Token = ''Atoken2''\<rparr>"

definition store0 :: Store where
  "store0 =
     \<lparr>storedMessages =
        [mkMessage 7 1 ''a'', mkMessage 8 1 ''b'', mkMessage 9 1 ''c'', mkMessage 10 1 ''d'',
         mkMessage 11 2 ''e''],
      storedApplications = [weatherBot, backupBot],
      failing = []\<rparr>"

definition world0 :: "Store World" where
  "world0 = \<lparr>store = store0, calls = []\<rparr>"

definition ctx0 :: Context where
  "ctx0 =
     \<lparr>GetUserID = 1, GetTokenID = ''Atoken1'',
      Location = \<lparr>Scheme = ''http'', Host = ''example.com'', Path = [], RawQuery = []\<rparr>,
      RequestURL = \<lparr>Scheme = [], Host = [], Path = ''/message'', RawQuery = ''limit=2''\<rparr>,
      MustBindWith = (\<lambda>p. Inr (p\<lparr>Limit := 2\<rparr>)),
      Bind = Inr \<lparr>req_Body = ''rain'', req_Title = ''Storm'', req_Priority = 5, req_Extras = []\<rparr>\<rparr>"

text \<open>
  The next-page URL that \<open>buildWithPaging\<close> computes for a full page with the cursor
  \<open>since\<close>, as one term: the URL of \<open>location.Get\<close> with the path of the request and
  with \<open>limit\<close> and \<open>since\<close> added to its query (\<open>nextLocation\<close>), printed.
\<close>

definition nextLocation :: "Context \<Rightarrow> pagingParams \<Rightarrow> nat \<Rightarrow> URL" where
  "nextLocation ctx paging since =
     (Location ctx)\<lparr>Path := Path (RequestURL ctx),
        RawQuery := Encode (Add (Add (Query (Location ctx)) ''limit'' (Itoa (Limit paging)))
                      ''since'' (FormatUint since))\<rparr>"

definition nextURL :: "Context \<Rightarrow> pagingParams \<Rightarrow> nat \<Rightarrow> string" where
  "nextURL ctx paging since = String (nextLocation ctx paging since)"

text \<open>
  The specification's wording of the next-page URL: the URL of the current request,
  copied, with its \<open>limit\<close> and \<open>since\<close> query parameters overwritten (\<open>Values.Set\<close>
  replaces the values of a key) by the current limit and the cursor.
\<close>

definition Set :: "Values \<Rightarrow> string \<Rightarrow> string \<Rightarrow> Values" where
  "Set v key val = filter (\<lambda>kv. fst kv \<noteq> key) v @ [(key, val)]"

definition specNextURL :: "Context \<Rightarrow> pagingParams \<Rightarrow> nat \<Rightarrow> string" where
  "specNextURL ctx paging since =
     String ((RequestURL ctx)\<lparr>RawQuery :=
        Encode (Set (Set (Query (RequestURL ctx)) ''limit'' (Itoa (Limit paging)))
                  ''since'' (FormatUint since))\<rparr>)"

text \<open>
  A request that reaches the server under an absolute URL and carries its client token
  in the query, as the \<open>clientTokenQuery\<close> security scheme of the API allows.
\<close>

definition ctxToken :: Context where
  "ctxToken =
     ctx0\<lparr>RequestURL := \<lparr>Scheme = ''http'', Host = ''example.com'', Path = ''/message'',
                          RawQuery = ''limit=2&token=Ctoken''\<rparr>\<rparr>"

text \<open>
  The second request of a client that follows the cursor 9 with the same limit, and the
  first page of the user's messages with limit 2.
\<close>

definition ctx1 :: Context where
  "ctx1 = ctx0\<lparr>MustBindWith := (\<lambda>p. Inr (p\<lparr>Limit := 2, Since := 9\<rparr>))\<rparr>"

definition page0 :: PagedMessages where
  "page0 =
     \<lparr>Paging = \<lparr>Size = 2, paging_Limit = 2,
                 Next = ''http://example.com/message?limit=2&since=9'', paging_Since = 9\<rparr>,
      Messages = [ToExternal (mkMessage 10 1 ''d''), ToExternal (mkMessage 9 1 ''c'')]\<rparr>"

text \<open>The calls that delete from the repository.\<close>

fun isDelete :: "Call \<Rightarrow> bool" where
  "isDelete (DeleteMessageByID i) = True"
| "isDelete (DeleteMessagesByUser i) = True"
| "isDelete (DeleteMessagesByApplication i) = True"
| "isDelete c = False"

text \<open>
  The message that \<open>CreateMessage\<close> has built when it calls the repository, as one term:
  the internal form of the request, with the application's name as its title when the
  trimmed title is empty.
\<close>

definition newMessage :: "ApplicationMessage \<Rightarrow> Application \<Rightarrow> Message" where
  "newMessage appMessage application =
     (let message = ToInternal appMessage (app_ID application) in
      if TrimSpace (Title message) = [] then message\<lparr>Title := Name application\<rparr> else message)"

text \<open>The messages of user 1 (all of them belong to application 1) in \<open>store0\<close>.\<close>

definition userMessages :: "Message list" where
  "userMessages =
     [mkMessage 7 1 ''a'', mkMessage 8 1 ''b'', mkMessage 9 1 ''c'', mkMessage 10 1 ''d'']"

text \<open>
  Repositories whose fetches, or whose create, fail; the message of the create request
  of \<open>ctx0\<close>; and a create request whose title is a space, a tab and a no-break space.
\<close>

definition brokenFetch :: Store where
  "brokenFetch =
     store0\<lparr>failing := [''GetMessagesByUser'', ''GetMessagesByApplication'', ''GetMessageByID'']\<rparr>"

definition brokenCreate :: Store where
  "brokenCreate = store0\<lparr>failing := [''CreateMessage'']\<rparr>"

definition storm :: Message where
  "storm =
     \<lparr>ID = 0, ApplicationID = 1, Body = ''rain'', Title = ''Storm'', Priority = 5,
      Extras = [], Date = 0\<rparr>"

definition ctxBlank :: Context where
  "ctxBlank =
     ctx0\<lparr>Bind := Inr \<lparr>req_Body = ''rain'', req_Title = [CHR '' '', CHR 0x09, CHR 0xC2, CHR 0xA0],
                        req_Priority = 5, req_Extras = []\<rparr>\<rparr>"

text \<open>Strings of decimal digits and the minus sign: what \<open>Itoa\<close> and \<open>FormatUint\<close> print.\<close>

definition plain :: "string \<Rightarrow> bool" where
  "plain s = (set s \<subseteq> set ''-0123456789'')"

section \<open>Paging: the page and its cursor\<close>

lemma toExternalMessages_map: "toExternalMessages ms = map ToExternal ms"
  by (induction ms) simp_all

lemma encodePairs_nonempty: "buf \<noteq> [] \<or> v \<noteq> [] \<Longrightarrow> encodePairs buf v \<noteq> []"
  by (induction v arbitrary: buf) auto

lemma Encode_Add_nonempty: "Encode (Add v key val) \<noteq> []"
proof -
  have "length (sort_key fst (v @ [(key, val)])) \<noteq> 0" by simp
  then have "sort_key fst (v @ [(key, val)]) \<noteq> []" by (simp del: length_sort)
  then show ?thesis
    unfolding Encode_def Add_def by (intro encodePairs_nonempty) simp
qed

lemma String_nonempty: "RawQuery u \<noteq> [] \<Longrightarrow> String u \<noteq> []"
  by (simp add: String_def Let_def)

lemma buildWithPaging_full:
  assumes "Limit paging < int (length messages)" and "1 \<le> Limit paging"
  shows "buildWithPaging ctx paging messages =
    Inr \<lparr>Paging = \<lparr>Size = int (length messages) - 1, paging_Limit = Limit paging,
                   Next = nextURL ctx paging (ID (last (butlast messages))),
                   paging_Since = ID (last (butlast messages))\<rparr>,
         Messages = map ToExternal (butlast messages)\<rparr>"
proof -
  from assms have len: "2 \<le> length messages" by linarith
  then have ne: "messages \<noteq> []" by auto
  have use: "take (length messages - 1) messages = butlast messages"
    by (simp add: butlast_conv_take)
  from len have "length (butlast messages) \<noteq> 0" by simp
  then have ne2: "butlast messages \<noteq> []" by (simp del: length_butlast)
  have idx: "butlast messages ! (length (butlast messages) - 1) = last (butlast messages)"
    by (rule last_conv_nth [OF ne2, symmetric])
  have size: "int (length (butlast messages)) = int (length messages) - 1"
    using len by (simp add: of_nat_diff)
  have q: "Query ((Location ctx)\<lparr>Path := Path (RequestURL ctx)\<rparr>) = Query (Location ctx)"
    by (simp add: Query_def)
  have "buildWithPaging ctx paging messages =
      Inr \<lparr>Paging = \<lparr>Size = int (length (butlast messages)), paging_Limit = Limit paging,
                   Next = String ((Location ctx)\<lparr>Path := Path (RequestURL ctx),
                      RawQuery := Encode (Add (Add (Query ((Location ctx)\<lparr>Path := Path (RequestURL ctx)\<rparr>))
                          ''limit'' (Itoa (Limit paging))) ''since''
                          (FormatUint (ID (butlast messages ! (length (butlast messages) - 1)))))\<rparr>),
                   paging_Since = ID (butlast messages ! (length (butlast messages) - 1))\<rparr>,
         Messages = toExternalMessages (butlast messages)\<rparr>"
    apply (subst buildWithPaging_def)
    apply (simp only: Let_def use)
    using assms(1) ne ne2 apply simp
    done
  then show ?thesis
    by (simp only: idx size q toExternalMessages_map nextURL_def nextLocation_def)
qed

lemma buildWithPaging_rest:
  assumes "\<not> Limit paging < int (length messages)"
  shows "buildWithPaging ctx paging messages =
    Inr \<lparr>Paging = \<lparr>Size = int (length messages), paging_Limit = Limit paging,
                   Next = [], paging_Since = 0\<rparr>,
         Messages = map ToExternal messages\<rparr>"
  using assms by (simp add: buildWithPaging_def toExternalMessages_map)

lemma nextURL_nonempty: "nextURL ctx paging since \<noteq> []"
  unfolding nextURL_def by (rule String_nonempty) (simp add: nextLocation_def Encode_Add_nonempty)


text \<open>
  C10. For any list and any limit, a result of \<open>buildWithPaging\<close> has a \<open>Size\<close> equal to
  the number of its messages, and its messages are the external views of the kept
  messages (all but the last row when the list is longer than the limit, every row
  otherwise) in their order. The only runs without a result are the two panics, with a
  limit below 1 and a list of at most one message.
\<close>

theorem buildWithPaging_size_and_order:
  "case buildWithPaging ctx paging messages of
     Inr page \<Rightarrow>
       Size (Paging page) = int (length (Messages page))
       \<and> Messages page =
           map ToExternal
             (if Limit paging < int (length messages) then butlast messages else messages)
   | Inl p \<Rightarrow> Limit paging < int (length messages) \<and> length messages \<le> 1"
proof (cases "Limit paging < int (length messages)")
  case False
  then show ?thesis by (simp add: buildWithPaging_rest)
next
  case more: True
  show ?thesis
  proof (cases "1 \<le> Limit paging")
    case True
    with more show ?thesis by (simp add: buildWithPaging_full)
  next
    case False
    show ?thesis
    proof (cases "2 \<le> length messages")
      case True
      then have ne: "messages \<noteq> []" by auto
      from True have "length (butlast messages) \<noteq> 0" by simp
      then have ne2: "butlast messages \<noteq> []" by (simp del: length_butlast)
      have use: "take (length messages - 1) messages = butlast messages"
        by (simp add: butlast_conv_take)
      have "\<exists>next since. buildWithPaging ctx paging messages =
          Inr \<lparr>Paging = \<lparr>Size = int (length (butlast messages)), paging_Limit = Limit paging,
                   Next = next, paging_Since = since\<rparr>,
               Messages = toExternalMessages (butlast messages)\<rparr>"
        apply (subst buildWithPaging_def)
        apply (simp only: Let_def use)
        using more ne ne2 apply simp
        done
      with more show ?thesis by (auto simp: toExternalMessages_map)
    next
      case short: False
      have use: "take (length messages - 1) messages = butlast messages"
        by (simp add: butlast_conv_take)
      from short have "length (butlast messages) = 0" by simp
      then have e: "butlast messages = []" by (simp del: length_butlast)
      have "\<exists>p. buildWithPaging ctx paging messages = Inl p"
        apply (subst buildWithPaging_def)
        apply (simp only: Let_def use e)
        using more apply simp
        done
      with more short show ?thesis by auto
    qed
  qed
qed

theorem buildWithPaging_size_and_order_witness:
  "Size (Paging (projr (buildWithPaging ctx0 \<lparr>Limit = 2, Since = 0\<rparr>
      [mkMessage 10 1 ''d'', mkMessage 9 1 ''c'', mkMessage 8 1 ''b''])))
     = int (length (Messages (projr (buildWithPaging ctx0 \<lparr>Limit = 2, Since = 0\<rparr>
      [mkMessage 10 1 ''d'', mkMessage 9 1 ''c'', mkMessage 8 1 ''b'']))))
   \<and> Messages (projr (buildWithPaging ctx0 \<lparr>Limit = 2, Since = 0\<rparr>
      [mkMessage 10 1 ''d'', mkMessage 9 1 ''c'', mkMessage 8 1 ''b'']))
     = [ToExternal (mkMessage 10 1 ''d''), ToExternal (mkMessage 9 1 ''c'')]
   \<and> buildWithPaging ctx0 \<lparr>Limit = 0, Since = 0\<rparr> [mkMessage 10 1 ''d''] = Inl IndexOutOfRange"
proof -
  have run: "buildWithPaging ctx0 \<lparr>Limit = 2, Since = 0\<rparr>
      [mkMessage 10 1 ''d'', mkMessage 9 1 ''c'', mkMessage 8 1 ''b'']
    = Inr \<lparr>Paging = \<lparr>Size = 2, paging_Limit = 2,
                      Next = ''http://example.com/message?limit=2&since=9'', paging_Since = 9\<rparr>,
            Messages = [ToExternal (mkMessage 10 1 ''d''), ToExternal (mkMessage 9 1 ''c'')]\<rparr>"
    by code_simp
  have crash: "buildWithPaging ctx0 \<lparr>Limit = 0, Since = 0\<rparr> [mkMessage 10 1 ''d''] = Inl IndexOutOfRange"
    by code_simp
  show ?thesis
    using run crash
      buildWithPaging_size_and_order [where ctx = ctx0 and paging = "\<lparr>Limit = 2, Since = 0\<rparr>"
        and messages = "[mkMessage 10 1 ''d'', mkMessage 9 1 ''c'', mkMessage 8 1 ''b'']"]
    by simp
qed

section \<open>Following the cursor\<close>

lemma GetMessages_run:
  assumes "MustBindWith ctx \<lparr>Limit = 100, Since = 0\<rparr> = Inr p"
    and "DB_GetMessagesByUserSince a (GetUserID ctx) (Limit p + 1) (Since p) (store w)
          = ((rows, err), s')"
  shows "GetMessages a ctx w =
    ((case err of Some e \<Rightarrow> AbortWithError 500 e | None \<Rightarrow> respondPage ctx p rows),
     \<lparr>store = s',
      calls = calls w @ [GetMessagesByUserSince (GetUserID ctx) (Limit p + 1) (Since p)]\<rparr>)"
  using assms
  by (simp add: GetMessages_def withPaging_def call_def successOrAbort_def Let_def
      split: option.splits)

lemma newest_first_last_least:
  assumes "sorted_wrt (\<lambda>m m'. ID m' < ID m) xs" and "m \<in> set xs"
  shows "ID (last xs) \<le> ID m"
  using assms
proof (induction xs)
  case Nil
  then show ?case by simp
next
  case (Cons x xs)
  then show ?case by (cases "xs = []") (auto simp: less_imp_le)
qed

lemma newest_first_butlast:
  assumes "sorted_wrt (\<lambda>m m'. ID m' < ID m) xs"
  shows "sorted_wrt (\<lambda>m m'. ID m' < ID m) (butlast xs)"
proof (cases "xs = []")
  case True
  then show ?thesis by simp
next
  case False
  then have "xs = butlast xs @ [last xs]" by simp
  with assms have "sorted_wrt (\<lambda>m m'. ID m' < ID m) (butlast xs @ [last xs])" by simp
  then show ?thesis by (simp only: sorted_wrt_append)
qed

lemma newest_first_last_below:
  assumes "sorted_wrt (\<lambda>m m'. ID m' < ID m) xs" and "butlast xs \<noteq> []"
  shows "ID (last xs) < ID (last (butlast xs))"
proof -
  from assms(2) have ne: "xs \<noteq> []" by auto
  then have "xs = butlast xs @ [last xs]" by simp
  with assms(1) have "sorted_wrt (\<lambda>m m'. ID m' < ID m) (butlast xs @ [last xs])" by simp
  then have "\<forall>m\<in>set (butlast xs). ID (last xs) < ID m"
    by (simp add: sorted_wrt_append)
  moreover have "last (butlast xs) \<in> set (butlast xs)" using assms(2) by simp
  ultimately show ?thesis by blast
qed

lemma respondPage_JSON:
  "respondPage ctx p rows = JSON c (PagedBody page) \<Longrightarrow> buildWithPaging ctx p rows = Inr page"
  by (simp add: respondPage_def split: sum.splits)

text \<open>
  C2. A repository returns the rows of a paged fetch newest first, with unique IDs and
  only IDs below \<open>since\<close> (0: no bound). When \<open>GetMessages\<close> with a limit in 1..200
  answers a first page that has a next cursor, and a second request carries that cursor
  as \<open>since\<close> and the same limit, then the second request answers a page, no message of
  that page has an ID at or above the cursor, and none of them is on the first page.
\<close>

theorem next_cursor_no_overlap:
  assumes valid: "pagingParams_tags p"
    and bind1: "MustBindWith ctx \<lparr>Limit = 100, Since = 0\<rparr> = Inr p"
    and fetch1: "DB_GetMessagesByUserSince a (GetUserID ctx) (Limit p + 1) (Since p) (store w)
                  = ((rows, None), s)"
    and newest_first: "sorted_wrt (\<lambda>m m'. ID m' < ID m) rows"
    and run1: "GetMessages a ctx w = (JSON 200 (PagedBody page), w')"
    and cursor: "Next (Paging page) \<noteq> []"
    and bind2: "MustBindWith ctx' \<lparr>Limit = 100, Since = 0\<rparr>
                  = Inr (p\<lparr>Since := paging_Since (Paging page)\<rparr>)"
    and fetch2: "DB_GetMessagesByUserSince a (GetUserID ctx') (Limit p + 1)
                    (paging_Since (Paging page)) (store w')
                  = ((rows', None), s')"
    and below_since: "\<forall>m\<in>set rows'.
                        paging_Since (Paging page) = 0 \<or> ID m < paging_Since (Paging page)"
  shows "\<exists>page' w''.
           GetMessages a ctx' w' = (JSON 200 (PagedBody page'), w'')
           \<and> (\<forall>m\<in>set (Messages page').
                 ext_ID m < paging_Since (Paging page)
                 \<and> m \<notin> set (Messages page)
                 \<and> ext_ID m \<notin> ext_ID ` set (Messages page))"
proof -
  let ?c = "paging_Since (Paging page)"
  let ?p2 = "p\<lparr>Since := ?c\<rparr>"
  from valid have tags: "1 \<le> Limit p" "Limit p \<le> 200"
    by (simp_all add: pagingParams_tags_def)
  from GetMessages_run [OF bind1 fetch1] run1
  have "respondPage ctx p rows = JSON 200 (PagedBody page)" by simp
  then have build1: "buildWithPaging ctx p rows = Inr page"
    by (rule respondPage_JSON)
  have full: "Limit p < int (length rows)"
  proof (rule ccontr)
    assume "\<not> Limit p < int (length rows)"
    with build1 cursor show False by (auto simp: buildWithPaging_rest)
  qed
  from full tags have len: "2 \<le> length rows" by linarith
  then have "length (butlast rows) \<noteq> 0" by simp
  then have kept_ne: "butlast rows \<noteq> []" by (simp del: length_butlast)
  from build1 full tags
  have c: "?c = ID (last (butlast rows))"
    and msgs1: "Messages page = map ToExternal (butlast rows)"
    by (auto simp: buildWithPaging_full)
  have "ID (last rows) < ID (last (butlast rows))"
    by (rule newest_first_last_below [OF newest_first kept_ne])
  with c have pos: "0 < ?c" by simp
  have ids1: "?c \<le> ext_ID m" if "m \<in> set (Messages page)" for m
  proof -
    from that msgs1 obtain r where r: "r \<in> set (butlast rows)" and m: "m = ToExternal r"
      by auto
    from newest_first_last_least [OF newest_first_butlast [OF newest_first] r] c
    show ?thesis by (simp add: m ToExternal_def)
  qed
  have lim2: "Limit ?p2 = Limit p" and since2: "Since ?p2 = ?c" by simp_all
  from fetch2 have fetch2': "DB_GetMessagesByUserSince a (GetUserID ctx') (Limit ?p2 + 1)
      (Since ?p2) (store w') = ((rows', None), s')"
    by (simp only: lim2 since2)
  have run2: "GetMessages a ctx' w' =
      (respondPage ctx' ?p2 rows',
       \<lparr>store = s',
        calls = calls w' @ [GetMessagesByUserSince (GetUserID ctx') (Limit ?p2 + 1) (Since ?p2)]\<rparr>)"
    using GetMessages_run [OF bind2 fetch2'] by simp
  obtain page' where build2: "buildWithPaging ctx' ?p2 rows' = Inr page'"
    and msgs2: "set (Messages page') \<subseteq> ToExternal ` set rows'"
  proof (cases "Limit ?p2 < int (length rows')")
    case True
    with tags have "buildWithPaging ctx' ?p2 rows' =
        Inr \<lparr>Paging = \<lparr>Size = int (length rows') - 1, paging_Limit = Limit ?p2,
                   Next = nextURL ctx' ?p2 (ID (last (butlast rows'))),
                   paging_Since = ID (last (butlast rows'))\<rparr>,
         Messages = map ToExternal (butlast rows')\<rparr>"
      by (intro buildWithPaging_full) simp_all
    moreover have "set (map ToExternal (butlast rows')) \<subseteq> ToExternal ` set rows'"
      by (auto dest: in_set_butlastD)
    ultimately show ?thesis using that by simp
  next
    case False
    then have "buildWithPaging ctx' ?p2 rows' =
        Inr \<lparr>Paging = \<lparr>Size = int (length rows'), paging_Limit = Limit ?p2,
                   Next = [], paging_Since = 0\<rparr>,
         Messages = map ToExternal rows'\<rparr>"
      by (rule buildWithPaging_rest)
    then show ?thesis using that by simp
  qed
  have ids2: "ext_ID m < ?c" if "m \<in> set (Messages page')" for m
  proof -
    from that msgs2 obtain r where r: "r \<in> set rows'" and m: "m = ToExternal r" by auto
    from below_since r pos have "ID r < ?c" by auto
    then show ?thesis by (simp add: m ToExternal_def)
  qed
  have "\<forall>m\<in>set (Messages page').
          ext_ID m < ?c \<and> m \<notin> set (Messages page) \<and> ext_ID m \<notin> ext_ID ` set (Messages page)"
  proof
    fix m assume m: "m \<in> set (Messages page')"
    have lt: "ext_ID m < ?c" by (rule ids2 [OF m])
    have "m \<notin> set (Messages page)"
    proof
      assume "m \<in> set (Messages page)"
      from ids1 [OF this] lt show False by simp
    qed
    moreover have "ext_ID m \<notin> ext_ID ` set (Messages page)"
    proof
      assume "ext_ID m \<in> ext_ID ` set (Messages page)"
      then obtain m' where "m' \<in> set (Messages page)" and "ext_ID m = ext_ID m'" by auto
      with ids1 [of m'] lt show False by simp
    qed
    ultimately show "ext_ID m < ?c \<and> m \<notin> set (Messages page)
        \<and> ext_ID m \<notin> ext_ID ` set (Messages page)"
      using lt by simp
  qed
  with run2 build2 show ?thesis by (simp add: respondPage_def)
qed


theorem next_cursor_no_overlap_witness:
  "GetMessages memDB ctx0 world0
     = (JSON 200 (PagedBody page0), \<lparr>store = store0, calls = [GetMessagesByUserSince 1 3 0]\<rparr>)
   \<and> (\<exists>page' w''.
         GetMessages memDB ctx1 \<lparr>store = store0, calls = [GetMessagesByUserSince 1 3 0]\<rparr>
           = (JSON 200 (PagedBody page'), w'')
         \<and> (\<forall>m\<in>set (Messages page').
               ext_ID m < 9 \<and> m \<notin> set (Messages page0)
               \<and> ext_ID m \<notin> ext_ID ` set (Messages page0)))"
proof -
  let ?p = "\<lparr>Limit = 2, Since = 0\<rparr>"
  let ?w' = "\<lparr>store = store0, calls = [GetMessagesByUserSince 1 3 0]\<rparr>"
  let ?rows = "[mkMessage 10 1 ''d'', mkMessage 9 1 ''c'', mkMessage 8 1 ''b'']"
  let ?rows' = "[mkMessage 8 1 ''b'', mkMessage 7 1 ''a'']"
  have since0: "paging_Since (Paging page0) = 9" by (simp add: page0_def)
  have tags: "pagingParams_tags ?p" by (simp add: pagingParams_tags_def)
  have bind1: "MustBindWith ctx0 \<lparr>Limit = 100, Since = 0\<rparr> = Inr ?p"
    by (simp add: ctx0_def)
  have fetch1: "DB_GetMessagesByUserSince memDB (GetUserID ctx0) (Limit ?p + 1) (Since ?p)
      (store world0) = ((?rows, None), store0)"
    by code_simp
  have newest_first: "sorted_wrt (\<lambda>m m'. ID m' < ID m) ?rows"
    by (simp add: mkMessage_def)
  have run1: "GetMessages memDB ctx0 world0 = (JSON 200 (PagedBody page0), ?w')"
    by code_simp
  have cursor: "Next (Paging page0) \<noteq> []" by (simp add: page0_def)
  have bind2: "MustBindWith ctx1 \<lparr>Limit = 100, Since = 0\<rparr>
      = Inr (?p\<lparr>Since := paging_Since (Paging page0)\<rparr>)"
    by (simp add: ctx1_def since0)
  have fetch2: "DB_GetMessagesByUserSince memDB (GetUserID ctx1) (Limit ?p + 1)
      (paging_Since (Paging page0)) (store ?w') = ((?rows', None), store0)"
    by code_simp
  have below_since: "\<forall>m\<in>set ?rows'.
      paging_Since (Paging page0) = 0 \<or> ID m < paging_Since (Paging page0)"
    by (simp add: since0 mkMessage_def)
  from next_cursor_no_overlap [OF tags bind1 fetch1 newest_first run1 cursor bind2 fetch2
      below_since] run1
  show ?thesis by (simp only: since0)
qed
section \<open>The handlers step by step\<close>

lemma DeleteMessages_run:
  assumes "DB_GetMessagesByUser a (GetUserID ctx) (store w) = ((ms, err), s)"
  shows "DeleteMessages a ctx w =
    (case err of
       Some e \<Rightarrow>
         (AbortWithError 500 e, \<lparr>store = s, calls = calls w @ [GetMessagesByUser (GetUserID ctx)]\<rparr>)
     | None \<Rightarrow>
         ((case fst (DB_DeleteMessagesByUser a (GetUserID ctx) s) of
             Some e \<Rightarrow> AbortWithError 500 e | None \<Rightarrow> Returned),
          \<lparr>store = snd (DB_DeleteMessagesByUser a (GetUserID ctx) s),
           calls = calls w @ [GetMessagesByUser (GetUserID ctx),
                     Notify (GetUserID ctx) (MessageDeletions ms),
                     DeleteMessagesByUser (GetUserID ctx)]\<rparr>))"
  using assms
  by (simp add: DeleteMessages_def call_def notify_def successOrAbort_def Let_def
      split: option.splits prod.splits)

lemma DeleteMessageWithApplication_run:
  assumes "DB_GetApplicationByID a i (store w) = ((app, err0), s0)"
    and "DB_GetMessagesByApplication a i s0 = ((ms, err), s)"
  shows "DeleteMessageWithApplication a ctx i w =
    (case err0 of
       Some e \<Rightarrow> (AbortWithError 500 e, \<lparr>store = s0, calls = calls w @ [GetApplicationByID i]\<rparr>)
     | None \<Rightarrow>
         (if app \<noteq> None \<and> UserID (the app) = GetUserID ctx then
            (case err of
               Some e \<Rightarrow>
                 (AbortWithError 500 e,
                  \<lparr>store = s, calls = calls w @ [GetApplicationByID i, GetMessagesByApplication i]\<rparr>)
             | None \<Rightarrow>
                 ((case fst (DB_DeleteMessagesByApplication a i s) of
                     Some e \<Rightarrow> AbortWithError 500 e | None \<Rightarrow> Returned),
                  \<lparr>store = snd (DB_DeleteMessagesByApplication a i s),
                   calls = calls w @ [GetApplicationByID i, GetMessagesByApplication i,
                             Notify (GetUserID ctx) (MessageDeletions ms),
                             DeleteMessagesByApplication i]\<rparr>))
          else
            (AbortWithError 404 ''application does not exists'',
             \<lparr>store = s0, calls = calls w @ [GetApplicationByID i]\<rparr>)))"
  using assms
  by (simp add: DeleteMessageWithApplication_def call_def notify_def successOrAbort_def Let_def
      split: option.splits prod.splits)

lemma DeleteMessage_run_unknown:
  assumes "DB_GetMessageByID a i (store w) = ((m, err0), s0)" and "err0 \<noteq> None \<or> m = None"
  shows "DeleteMessage a ctx i w =
    ((case err0 of
        Some e \<Rightarrow> AbortWithError 500 e
      | None \<Rightarrow> AbortWithError 404 ''message does not exist''),
     \<lparr>store = s0, calls = calls w @ [GetMessageByID i]\<rparr>)"
  using assms
  by (auto simp add: DeleteMessage_def call_def notify_def successOrAbort_def Let_def
      split: option.splits prod.splits)

lemma DeleteMessage_run:
  assumes "DB_GetMessageByID a i (store w) = ((Some m, None), s0)"
    and "DB_GetApplicationByID a (ApplicationID m) s0 = ((app, err), s)"
  shows "DeleteMessage a ctx i w =
    (case err of
       Some e \<Rightarrow>
         (AbortWithError 500 e,
          \<lparr>store = s, calls = calls w @ [GetMessageByID i, GetApplicationByID (ApplicationID m)]\<rparr>)
     | None \<Rightarrow>
         (if app \<noteq> None \<and> UserID (the app) = GetUserID ctx then
            ((case fst (DB_DeleteMessageByID a i s) of
                Some e \<Rightarrow> AbortWithError 500 e | None \<Rightarrow> Returned),
             \<lparr>store = snd (DB_DeleteMessageByID a i s),
              calls = calls w @ [GetMessageByID i, GetApplicationByID (ApplicationID m),
                        Notify (GetUserID ctx) (MessageDeletions [m]),
                        DeleteMessageByID i]\<rparr>)
          else
            (AbortWithError 404 ''message does not exist'',
             \<lparr>store = s,
              calls = calls w @ [GetMessageByID i, GetApplicationByID (ApplicationID m)]\<rparr>)))"
  using assms
  by (simp add: DeleteMessage_def call_def notify_def successOrAbort_def Let_def
      split: option.splits prod.splits)

lemma GetMessagesWithApplication_run_denied:
  assumes "DB_GetApplicationByID a i (store w) = ((app, None), s0)"
    and "app = None \<or> UserID (the app) \<noteq> GetUserID ctx"
  shows "GetMessagesWithApplication a ctx i w =
    (case MustBindWith ctx \<lparr>Limit = 100, Since = 0\<rparr> of
       Inl e \<Rightarrow> (AbortWithError 400 e, w)
     | Inr params \<Rightarrow>
         (AbortWithError 404 ''application does not exist'',
          \<lparr>store = s0, calls = calls w @ [GetApplicationByID i]\<rparr>))"
  using assms
  by (auto simp add: GetMessagesWithApplication_def withPaging_def call_def successOrAbort_def
      Let_def split: option.splits prod.splits sum.splits)

lemma CreateMessage_run:
  assumes "Bind ctx = Inr appMessage"
    and "DB_GetApplicationByToken a (GetTokenID ctx) (store w) = ((Some application, None), s0)"
    and "DB_CreateMessage a (newMessage appMessage application) s0 = ((m', err), s)"
  shows "CreateMessage a ctx w =
    (case err of
       Some e \<Rightarrow>
         (AbortWithError 500 e,
          \<lparr>store = s,
           calls = calls w @ [GetApplicationByToken (GetTokenID ctx),
                     CreateMessageCall (newMessage appMessage application)]\<rparr>)
     | None \<Rightarrow>
         (JSON 200 (MessageBody (ToExternal m')),
          \<lparr>store = s,
           calls = calls w @ [GetApplicationByToken (GetTokenID ctx),
                     CreateMessageCall (newMessage appMessage application),
                     Notify (GetUserID ctx) (MessageCreated m')]\<rparr>))"
  using assms
  by (simp add: CreateMessage_def newMessage_def call_def notify_def successOrAbort_def Let_def
      split: option.splits prod.splits)

lemma CreateMessage_run_unresolved:
  assumes "Bind ctx = Inr appMessage"
    and "DB_GetApplicationByToken a (GetTokenID ctx) (store w) = ((application, err), s0)"
    and "err \<noteq> None \<or> application = None"
  shows "CreateMessage a ctx w =
    ((case err of Some e \<Rightarrow> AbortWithError 500 e | None \<Rightarrow> Panic NilPointerDereference),
     \<lparr>store = s0, calls = calls w @ [GetApplicationByToken (GetTokenID ctx)]\<rparr>)"
  using assms
  by (auto simp add: CreateMessage_def call_def notify_def successOrAbort_def Let_def
      split: option.splits prod.splits)


lemma DeleteMessageWithApplication_run_denied:
  assumes "DB_GetApplicationByID a i (store w) = ((app, None), s0)"
    and "app = None \<or> UserID (the app) \<noteq> GetUserID ctx"
  shows "DeleteMessageWithApplication a ctx i w =
    (AbortWithError 404 ''application does not exists'',
     \<lparr>store = s0, calls = calls w @ [GetApplicationByID i]\<rparr>)"
  using assms
  by (auto simp add: DeleteMessageWithApplication_def call_def successOrAbort_def Let_def
      split: option.splits prod.splits)

section \<open>The size of a page\<close>

lemma GetMessagesWithApplication_run_allowed:
  assumes "MustBindWith ctx \<lparr>Limit = 100, Since = 0\<rparr> = Inr p"
    and "DB_GetApplicationByID a i (store w) = ((Some app, None), s0)"
    and "UserID app = GetUserID ctx"
    and "DB_GetMessagesByApplicationSince a i (Limit p + 1) (Since p) s0 = ((rows, err), s)"
  shows "GetMessagesWithApplication a ctx i w =
    ((case err of Some e \<Rightarrow> AbortWithError 500 e | None \<Rightarrow> respondPage ctx p rows),
     \<lparr>store = s,
      calls = calls w @ [GetApplicationByID i,
                GetMessagesByApplicationSince i (Limit p + 1) (Since p)]\<rparr>)"
  using assms
  by (simp add: GetMessagesWithApplication_def withPaging_def call_def successOrAbort_def Let_def
      split: option.splits)

lemma buildWithPaging_page:
  assumes "1 \<le> Limit paging"
  shows "\<exists>page. buildWithPaging ctx paging messages = Inr page
           \<and> (Next (Paging page) \<noteq> [] \<longleftrightarrow> Limit paging < int (length messages))
           \<and> (int (length messages) \<le> Limit paging + 1
                \<longrightarrow> int (length (Messages page)) \<le> Limit paging)"
proof (cases "Limit paging < int (length messages)")
  case True
  with assms show ?thesis
    by (simp add: buildWithPaging_full nextURL_nonempty)
next
  case False
  then show ?thesis
    by (simp add: buildWithPaging_rest)
qed

lemma respondPage_page:
  assumes "1 \<le> Limit paging" and "int (length messages) \<le> Limit paging + 1"
  shows "\<exists>page. respondPage ctx paging messages = JSON 200 (PagedBody page)
           \<and> int (length (Messages page)) \<le> Limit paging
           \<and> (Next (Paging page) \<noteq> [] \<longleftrightarrow> Limit paging < int (length messages))"
proof -
  from buildWithPaging_page [OF assms(1), of ctx messages] assms(2)
  obtain page where "buildWithPaging ctx paging messages = Inr page"
    and "int (length (Messages page)) \<le> Limit paging"
    and "Next (Paging page) \<noteq> [] \<longleftrightarrow> Limit paging < int (length messages)"
    by blast
  then show ?thesis by (simp add: respondPage_def)
qed

text \<open>
  C1. For every limit in 1..200 and every list of messages, \<open>buildWithPaging\<close> returns a
  page, and its next cursor is non-empty exactly when the list holds more than \<open>limit\<close>
  messages. The lists that are passed to \<open>buildWithPaging\<close> are the repository's answers
  to the fetch of \<open>limit + 1\<close> rows in \<open>GetMessages\<close> and in
  \<open>GetMessagesWithApplication\<close>, which hold at most the requested \<open>limit + 1\<close> rows; for
  them the page holds at most \<open>limit\<close> messages, in \<open>buildWithPaging\<close> itself and in the
  response of either handler.
\<close>

theorem page_holds_at_most_limit:
  "pagingParams_tags paging
   \<longrightarrow> (\<exists>page. buildWithPaging ctx paging messages = Inr page
          \<and> (Next (Paging page) \<noteq> [] \<longleftrightarrow> Limit paging < int (length messages))
          \<and> (int (length messages) \<le> Limit paging + 1
               \<longrightarrow> int (length (Messages page)) \<le> Limit paging))
       \<and> (MustBindWith ctx \<lparr>Limit = 100, Since = 0\<rparr> = Inr paging
            \<and> DB_GetMessagesByUserSince a (GetUserID ctx) (Limit paging + 1) (Since paging) (store w)
                = ((messages, None), s)
            \<and> int (length messages) \<le> Limit paging + 1
          \<longrightarrow> (\<exists>page. fst (GetMessages a ctx w) = JSON 200 (PagedBody page)
                 \<and> int (length (Messages page)) \<le> Limit paging
                 \<and> (Next (Paging page) \<noteq> [] \<longleftrightarrow> Limit paging < int (length messages))))
       \<and> (MustBindWith ctx \<lparr>Limit = 100, Since = 0\<rparr> = Inr paging
            \<and> DB_GetApplicationByID a i (store w) = ((Some app, None), s0)
            \<and> UserID app = GetUserID ctx
            \<and> DB_GetMessagesByApplicationSince a i (Limit paging + 1) (Since paging) s0
                = ((messages, None), s)
            \<and> int (length messages) \<le> Limit paging + 1
          \<longrightarrow> (\<exists>page. fst (GetMessagesWithApplication a ctx i w) = JSON 200 (PagedBody page)
                 \<and> int (length (Messages page)) \<le> Limit paging
                 \<and> (Next (Paging page) \<noteq> [] \<longleftrightarrow> Limit paging < int (length messages))))"
proof
  assume "pagingParams_tags paging"
  then have limit: "1 \<le> Limit paging" by (simp add: pagingParams_tags_def)
  have direct: "\<exists>page. buildWithPaging ctx paging messages = Inr page
          \<and> (Next (Paging page) \<noteq> [] \<longleftrightarrow> Limit paging < int (length messages))
          \<and> (int (length messages) \<le> Limit paging + 1
               \<longrightarrow> int (length (Messages page)) \<le> Limit paging)"
    by (rule buildWithPaging_page [OF limit])
  have by_user: "\<exists>page. fst (GetMessages a ctx w) = JSON 200 (PagedBody page)
                 \<and> int (length (Messages page)) \<le> Limit paging
                 \<and> (Next (Paging page) \<noteq> [] \<longleftrightarrow> Limit paging < int (length messages))"
    if h: "MustBindWith ctx \<lparr>Limit = 100, Since = 0\<rparr> = Inr paging
            \<and> DB_GetMessagesByUserSince a (GetUserID ctx) (Limit paging + 1) (Since paging) (store w)
                = ((messages, None), s)
            \<and> int (length messages) \<le> Limit paging + 1"
  proof -
    from h have bound: "MustBindWith ctx \<lparr>Limit = 100, Since = 0\<rparr> = Inr paging"
      and fetch: "DB_GetMessagesByUserSince a (GetUserID ctx) (Limit paging + 1) (Since paging)
          (store w) = ((messages, None), s)"
      and rows: "int (length messages) \<le> Limit paging + 1"
      by simp_all
    have "fst (GetMessages a ctx w) = respondPage ctx paging messages"
      by (simp add: GetMessages_run [OF bound fetch])
    with respondPage_page [OF limit rows, of ctx] show ?thesis by simp
  qed
  have by_application: "\<exists>page. fst (GetMessagesWithApplication a ctx i w) = JSON 200 (PagedBody page)
                 \<and> int (length (Messages page)) \<le> Limit paging
                 \<and> (Next (Paging page) \<noteq> [] \<longleftrightarrow> Limit paging < int (length messages))"
    if h: "MustBindWith ctx \<lparr>Limit = 100, Since = 0\<rparr> = Inr paging
            \<and> DB_GetApplicationByID a i (store w) = ((Some app, None), s0)
            \<and> UserID app = GetUserID ctx
            \<and> DB_GetMessagesByApplicationSince a i (Limit paging + 1) (Since paging) s0
                = ((messages, None), s)
            \<and> int (length messages) \<le> Limit paging + 1"
  proof -
    from h have bound: "MustBindWith ctx \<lparr>Limit = 100, Since = 0\<rparr> = Inr paging"
      and lookup: "DB_GetApplicationByID a i (store w) = ((Some app, None), s0)"
      and owner: "UserID app = GetUserID ctx"
      and fetch: "DB_GetMessagesByApplicationSince a i (Limit paging + 1) (Since paging) s0
          = ((messages, None), s)"
      and rows: "int (length messages) \<le> Limit paging + 1"
      by simp_all
    have "fst (GetMessagesWithApplication a ctx i w) = respondPage ctx paging messages"
      by (simp add: GetMessagesWithApplication_run_allowed [OF bound lookup owner fetch])
    with respondPage_page [OF limit rows, of ctx] show ?thesis by simp
  qed
  from direct by_user by_application
  show "(\<exists>page. buildWithPaging ctx paging messages = Inr page
          \<and> (Next (Paging page) \<noteq> [] \<longleftrightarrow> Limit paging < int (length messages))
          \<and> (int (length messages) \<le> Limit paging + 1
               \<longrightarrow> int (length (Messages page)) \<le> Limit paging))
       \<and> (MustBindWith ctx \<lparr>Limit = 100, Since = 0\<rparr> = Inr paging
            \<and> DB_GetMessagesByUserSince a (GetUserID ctx) (Limit paging + 1) (Since paging) (store w)
                = ((messages, None), s)
            \<and> int (length messages) \<le> Limit paging + 1
          \<longrightarrow> (\<exists>page. fst (GetMessages a ctx w) = JSON 200 (PagedBody page)
                 \<and> int (length (Messages page)) \<le> Limit paging
                 \<and> (Next (Paging page) \<noteq> [] \<longleftrightarrow> Limit paging < int (length messages))))
       \<and> (MustBindWith ctx \<lparr>Limit = 100, Since = 0\<rparr> = Inr paging
            \<and> DB_GetApplicationByID a i (store w) = ((Some app, None), s0)
            \<and> UserID app = GetUserID ctx
            \<and> DB_GetMessagesByApplicationSince a i (Limit paging + 1) (Since paging) s0
                = ((messages, None), s)
            \<and> int (length messages) \<le> Limit paging + 1
          \<longrightarrow> (\<exists>page. fst (GetMessagesWithApplication a ctx i w) = JSON 200 (PagedBody page)
                 \<and> int (length (Messages page)) \<le> Limit paging
                 \<and> (Next (Paging page) \<noteq> [] \<longleftrightarrow> Limit paging < int (length messages))))"
    by (intro conjI impI)
qed


theorem page_holds_at_most_limit_witness:
  "fst (GetMessages memDB ctx0 world0) = JSON 200 (PagedBody page0)
   \<and> fst (GetMessagesWithApplication memDB ctx0 1 world0) = JSON 200 (PagedBody page0)
   \<and> int (length (Messages page0)) \<le> 2
   \<and> Next (Paging page0) \<noteq> []
   \<and> (\<exists>page. buildWithPaging ctx0 \<lparr>Limit = 2, Since = 0\<rparr>
            [mkMessage 10 1 ''d'', mkMessage 9 1 ''c'', mkMessage 8 1 ''b''] = Inr page
          \<and> (Next (Paging page) \<noteq> []
               \<longleftrightarrow> Limit \<lparr>Limit = 2, Since = 0\<rparr>
                     < int (length [mkMessage 10 1 ''d'', mkMessage 9 1 ''c'', mkMessage 8 1 ''b'']))
          \<and> (int (length [mkMessage 10 1 ''d'', mkMessage 9 1 ''c'', mkMessage 8 1 ''b''])
                 \<le> Limit \<lparr>Limit = 2, Since = 0\<rparr> + 1
               \<longrightarrow> int (length (Messages page)) \<le> Limit \<lparr>Limit = 2, Since = 0\<rparr>))
   \<and> (\<exists>page. fst (GetMessages memDB ctx0 world0) = JSON 200 (PagedBody page)
          \<and> int (length (Messages page)) \<le> Limit \<lparr>Limit = 2, Since = 0\<rparr>
          \<and> (Next (Paging page) \<noteq> []
               \<longleftrightarrow> Limit \<lparr>Limit = 2, Since = 0\<rparr>
                     < int (length [mkMessage 10 1 ''d'', mkMessage 9 1 ''c'', mkMessage 8 1 ''b''])))
   \<and> (\<exists>page. fst (GetMessagesWithApplication memDB ctx0 1 world0) = JSON 200 (PagedBody page)
          \<and> int (length (Messages page)) \<le> Limit \<lparr>Limit = 2, Since = 0\<rparr>
          \<and> (Next (Paging page) \<noteq> []
               \<longleftrightarrow> Limit \<lparr>Limit = 2, Since = 0\<rparr>
                     < int (length [mkMessage 10 1 ''d'', mkMessage 9 1 ''c'', mkMessage 8 1 ''b''])))
   \<and> (\<exists>page. fst (GetMessages memDB ctx1 world0) = JSON 200 (PagedBody page)
          \<and> int (length (Messages page)) \<le> Limit \<lparr>Limit = 2, Since = 9\<rparr>
          \<and> (Next (Paging page) \<noteq> []
               \<longleftrightarrow> Limit \<lparr>Limit = 2, Since = 9\<rparr>
                     < int (length [mkMessage 8 1 ''b'', mkMessage 7 1 ''a''])))"
proof -
  let ?p = "\<lparr>Limit = 2, Since = 0\<rparr>"
  let ?rows = "[mkMessage 10 1 ''d'', mkMessage 9 1 ''c'', mkMessage 8 1 ''b'']"
  let ?p' = "\<lparr>Limit = 2, Since = 9\<rparr>"
  let ?rows' = "[mkMessage 8 1 ''b'', mkMessage 7 1 ''a'']"
  have by_user_run: "fst (GetMessages memDB ctx0 world0) = JSON 200 (PagedBody page0)"
    by code_simp
  have by_application_run:
    "fst (GetMessagesWithApplication memDB ctx0 1 world0) = JSON 200 (PagedBody page0)"
    by code_simp
  have size: "int (length (Messages page0)) \<le> 2" by (simp add: page0_def)
  have cursor: "Next (Paging page0) \<noteq> []" by (simp add: page0_def)
  have tags: "pagingParams_tags ?p" by (simp add: pagingParams_tags_def)
  have tags': "pagingParams_tags ?p'" by (simp add: pagingParams_tags_def)
  have by_user: "MustBindWith ctx0 \<lparr>Limit = 100, Since = 0\<rparr> = Inr ?p
      \<and> DB_GetMessagesByUserSince memDB (GetUserID ctx0) (Limit ?p + 1) (Since ?p) (store world0)
          = ((?rows, None), store0)
      \<and> int (length ?rows) \<le> Limit ?p + 1"
    by code_simp
  have by_application: "MustBindWith ctx0 \<lparr>Limit = 100, Since = 0\<rparr> = Inr ?p
      \<and> DB_GetApplicationByID memDB 1 (store world0) = ((Some weatherBot, None), store0)
      \<and> UserID weatherBot = GetUserID ctx0
      \<and> DB_GetMessagesByApplicationSince memDB 1 (Limit ?p + 1) (Since ?p) store0
          = ((?rows, None), store0)
      \<and> int (length ?rows) \<le> Limit ?p + 1"
    by code_simp
  have last_page: "MustBindWith ctx1 \<lparr>Limit = 100, Since = 0\<rparr> = Inr ?p'
      \<and> DB_GetMessagesByUserSince memDB (GetUserID ctx1) (Limit ?p' + 1) (Since ?p') (store world0)
          = ((?rows', None), store0)
      \<and> int (length ?rows') \<le> Limit ?p' + 1"
    by code_simp
  note first = page_holds_at_most_limit [where paging = ?p and messages = ?rows and ctx = ctx0
      and a = memDB and w = world0 and s = store0 and i = 1 and app = weatherBot
      and s0 = store0, THEN mp, OF tags]
  note second = page_holds_at_most_limit [where paging = ?p' and messages = ?rows' and ctx = ctx1
      and a = memDB and w = world0 and s = store0, THEN mp, OF tags']
  from by_user_run by_application_run size cursor
    first [THEN conjunct1]
    first [THEN conjunct2, THEN conjunct1, THEN mp, OF by_user]
    first [THEN conjunct2, THEN conjunct2, THEN mp, OF by_application]
    second [THEN conjunct2, THEN conjunct1, THEN mp, OF last_page]
  show ?thesis by (intro conjI)
qed

section \<open>Authorization\<close>

text \<open>
  C3. For every acting user, a request for an application (or a message) that another
  user owns gets exactly the response of a request for an application (or a message)
  that does not exist: 404 with the same error, for \<open>GetMessagesWithApplication\<close> (after
  the same outcome of the paging binding), \<open>DeleteMessageWithApplication\<close> and
  \<open>DeleteMessage\<close>. The denied run calls neither the notifier nor a delete.
\<close>

theorem not_found_is_uniform:
  "(DB_GetApplicationByID a i (store w) = ((None, None), s)
    \<and> DB_GetApplicationByID a i' (store w') = ((Some app, None), s')
    \<and> UserID app \<noteq> GetUserID ctx
    \<longrightarrow> fst (GetMessagesWithApplication a ctx i w)
          = (case MustBindWith ctx \<lparr>Limit = 100, Since = 0\<rparr> of
               Inl e \<Rightarrow> AbortWithError 400 e
             | Inr params \<Rightarrow> AbortWithError 404 ''application does not exist'')
        \<and> fst (GetMessagesWithApplication a ctx i' w') = fst (GetMessagesWithApplication a ctx i w)
        \<and> fst (DeleteMessageWithApplication a ctx i w)
            = AbortWithError 404 ''application does not exists''
        \<and> fst (DeleteMessageWithApplication a ctx i' w')
            = fst (DeleteMessageWithApplication a ctx i w)
        \<and> calls (snd (DeleteMessageWithApplication a ctx i' w'))
            = calls w' @ [GetApplicationByID i'])
   \<and> (DB_GetMessageByID a j (store w) = ((None, None), s)
      \<and> DB_GetMessageByID a j' (store w') = ((Some m, None), s')
      \<and> DB_GetApplicationByID a (ApplicationID m) s' = ((Some app, None), s'')
      \<and> UserID app \<noteq> GetUserID ctx
      \<longrightarrow> fst (DeleteMessage a ctx j w) = AbortWithError 404 ''message does not exist''
          \<and> fst (DeleteMessage a ctx j' w') = fst (DeleteMessage a ctx j w)
          \<and> calls (snd (DeleteMessage a ctx j' w'))
              = calls w' @ [GetMessageByID j', GetApplicationByID (ApplicationID m)])"
proof (intro conjI impI)
  assume h: "DB_GetApplicationByID a i (store w) = ((None, None), s)
    \<and> DB_GetApplicationByID a i' (store w') = ((Some app, None), s')
    \<and> UserID app \<noteq> GetUserID ctx"
  then have missing: "DB_GetApplicationByID a i (store w) = ((None, None), s)"
    and foreign: "DB_GetApplicationByID a i' (store w') = ((Some app, None), s')"
    and other: "Some app = None \<or> UserID (the (Some app)) \<noteq> GetUserID ctx"
    by simp_all
  have none: "(None :: Application option) = None \<or> UserID (the None) \<noteq> GetUserID ctx"
    by simp
  note get1 = GetMessagesWithApplication_run_denied [OF missing none]
  note get2 = GetMessagesWithApplication_run_denied [OF foreign other]
  note del1 = DeleteMessageWithApplication_run_denied [OF missing none]
  note del2 = DeleteMessageWithApplication_run_denied [OF foreign other]
  show "fst (GetMessagesWithApplication a ctx i w)
      = (case MustBindWith ctx \<lparr>Limit = 100, Since = 0\<rparr> of
           Inl e \<Rightarrow> AbortWithError 400 e
         | Inr params \<Rightarrow> AbortWithError 404 ''application does not exist'')"
    by (simp add: get1 split: sum.splits)
  show "fst (GetMessagesWithApplication a ctx i' w') = fst (GetMessagesWithApplication a ctx i w)"
    by (simp add: get1 get2 split: sum.splits)
  show "fst (DeleteMessageWithApplication a ctx i w)
      = AbortWithError 404 ''application does not exists''"
    by (simp add: del1)
  show "fst (DeleteMessageWithApplication a ctx i' w')
      = fst (DeleteMessageWithApplication a ctx i w)"
    by (simp add: del1 del2)
  show "calls (snd (DeleteMessageWithApplication a ctx i' w')) = calls w' @ [GetApplicationByID i']"
    by (simp add: del2)
next
  assume h: "DB_GetMessageByID a j (store w) = ((None, None), s)
      \<and> DB_GetMessageByID a j' (store w') = ((Some m, None), s')
      \<and> DB_GetApplicationByID a (ApplicationID m) s' = ((Some app, None), s'')
      \<and> UserID app \<noteq> GetUserID ctx"
  then have missing: "DB_GetMessageByID a j (store w) = ((None, None), s)"
    and found: "DB_GetMessageByID a j' (store w') = ((Some m, None), s')"
    and foreign: "DB_GetApplicationByID a (ApplicationID m) s' = ((Some app, None), s'')"
    and other: "UserID app \<noteq> GetUserID ctx"
    by simp_all
  have none: "(None :: error option) \<noteq> None \<or> (None :: Message option) = None" by simp
  note run1 = DeleteMessage_run_unknown [OF missing none]
  note run2 = DeleteMessage_run [OF found foreign]
  show "fst (DeleteMessage a ctx j w) = AbortWithError 404 ''message does not exist''"
    by (simp add: run1)
  show "fst (DeleteMessage a ctx j' w') = fst (DeleteMessage a ctx j w)"
    using other by (simp add: run1 run2)
  show "calls (snd (DeleteMessage a ctx j' w'))
      = calls w' @ [GetMessageByID j', GetApplicationByID (ApplicationID m)]"
    using other by (simp add: run2)
qed

theorem not_found_is_uniform_witness:
  "fst (GetMessagesWithApplication memDB ctx0 99 world0)
     = AbortWithError 404 ''application does not exist''
   \<and> fst (GetMessagesWithApplication memDB ctx0 2 world0)
       = AbortWithError 404 ''application does not exist''
   \<and> fst (DeleteMessageWithApplication memDB ctx0 99 world0)
       = AbortWithError 404 ''application does not exists''
   \<and> fst (DeleteMessageWithApplication memDB ctx0 2 world0)
       = AbortWithError 404 ''application does not exists''
   \<and> fst (DeleteMessage memDB ctx0 99 world0) = AbortWithError 404 ''message does not exist''
   \<and> fst (DeleteMessage memDB ctx0 11 world0) = AbortWithError 404 ''message does not exist''
   \<and> calls (snd (DeleteMessage memDB ctx0 11 world0)) = [GetMessageByID 11, GetApplicationByID 2]"
proof -
  have missing: "DB_GetApplicationByID memDB 99 (store world0) = ((None, None), store0)"
    by code_simp
  have foreign: "DB_GetApplicationByID memDB 2 (store world0) = ((Some backupBot, None), store0)"
    by code_simp
  have other: "UserID backupBot \<noteq> GetUserID ctx0"
    by (simp add: backupBot_def ctx0_def)
  have no_message: "DB_GetMessageByID memDB 99 (store world0) = ((None, None), store0)"
    by code_simp
  have message: "DB_GetMessageByID memDB 11 (store world0)
      = ((Some (mkMessage 11 2 ''e''), None), store0)"
    by code_simp
  have its_app: "DB_GetApplicationByID memDB (ApplicationID (mkMessage 11 2 ''e'')) store0
      = ((Some backupBot, None), store0)"
    by code_simp
  have bound: "MustBindWith ctx0 \<lparr>Limit = 100, Since = 0\<rparr> = Inr \<lparr>Limit = 2, Since = 0\<rparr>"
    by (simp add: ctx0_def)
  have app2: "ApplicationID (mkMessage 11 2 ''e'') = 2" by (simp add: mkMessage_def)
  have no_calls: "calls world0 = []" by (simp add: world0_def)
  from not_found_is_uniform [where a = memDB and ctx = ctx0 and w = world0 and w' = world0
      and i = 99 and i' = 2 and j = 99 and j' = 11 and app = backupBot and s = store0
      and s' = store0 and s'' = store0 and m = "mkMessage 11 2 ''e''"]
    missing foreign other no_message message its_app
  show ?thesis by (simp add: bound app2 no_calls)
qed


section \<open>Deleting: notify, then delete\<close>

lemma delete_is_last_of_four:
  assumes "[c1, c2, n, d] = pre @ [x] @ post" and "isDelete x"
    and "\<not> isDelete c1" and "\<not> isDelete c2" and "\<not> isDelete n"
  shows "pre = [c1, c2, n] \<and> x = d \<and> post = []"
  using assms by (auto simp: append_eq_Cons_conv Cons_eq_append_conv)

lemma delete_is_last_of_three:
  assumes "[c1, n, d] = pre @ [x] @ post" and "isDelete x"
    and "\<not> isDelete c1" and "\<not> isDelete n"
  shows "pre = [c1, n] \<and> x = d \<and> post = []"
  using assms by (auto simp: append_eq_Cons_conv Cons_eq_append_conv)

lemma no_delete_in_two:
  assumes "[c1, c2] = pre @ [x] @ post" and "isDelete x"
    and "\<not> isDelete c1" and "\<not> isDelete c2"
  shows False
  using assms by (auto simp: append_eq_Cons_conv Cons_eq_append_conv)

lemma no_delete_in_one:
  assumes "[c1] = pre @ [x] @ post" and "isDelete x" and "\<not> isDelete c1"
  shows False
  using assms by (auto simp: append_eq_Cons_conv Cons_eq_append_conv)

text \<open>
  C4. In every run of a delete handler, a delete call \<open>x\<close> on the repository is the
  handler's own delete, and before it (in \<open>pre\<close>) the owning user has been sent a
  \<open>MessageDeletions\<close> notification with exactly the messages that the fetch returned: the
  user's messages, the application's messages, or the one message.
\<close>

theorem notify_precedes_delete:
  "(DB_GetMessagesByUser a (GetUserID ctx) (store w) = ((ms, err), s)
    \<and> calls (snd (DeleteMessages a ctx w)) = calls w @ pre @ [x] @ post \<and> isDelete x
    \<longrightarrow> x = DeleteMessagesByUser (GetUserID ctx)
        \<and> Notify (GetUserID ctx) (MessageDeletions ms) \<in> set pre)
   \<and> (DB_GetApplicationByID a i (store w) = ((app, err0), s0)
      \<and> DB_GetMessagesByApplication a i s0 = ((ms, err), s)
      \<and> calls (snd (DeleteMessageWithApplication a ctx i w)) = calls w @ pre @ [x] @ post
      \<and> isDelete x
      \<longrightarrow> x = DeleteMessagesByApplication i
          \<and> (\<exists>owner. app = Some owner
                \<and> Notify (UserID owner) (MessageDeletions ms) \<in> set pre))
   \<and> (DB_GetMessageByID a i (store w) = ((found, err0), s0)
      \<and> DB_GetApplicationByID a (ApplicationID (the found)) s0 = ((app, err), s)
      \<and> calls (snd (DeleteMessage a ctx i w)) = calls w @ pre @ [x] @ post
      \<and> isDelete x
      \<longrightarrow> x = DeleteMessageByID i
          \<and> (\<exists>m owner. found = Some m \<and> app = Some owner
                \<and> Notify (UserID owner) (MessageDeletions [m]) \<in> set pre))"
proof (intro conjI impI)
  assume h: "DB_GetMessagesByUser a (GetUserID ctx) (store w) = ((ms, err), s)
    \<and> calls (snd (DeleteMessages a ctx w)) = calls w @ pre @ [x] @ post \<and> isDelete x"
  then have fetch: "DB_GetMessagesByUser a (GetUserID ctx) (store w) = ((ms, err), s)"
    and cs: "calls (snd (DeleteMessages a ctx w)) = calls w @ pre @ [x] @ post"
    and x: "isDelete x"
    by simp_all
  have "pre = [GetMessagesByUser (GetUserID ctx), Notify (GetUserID ctx) (MessageDeletions ms)]
      \<and> x = DeleteMessagesByUser (GetUserID ctx) \<and> post = []"
  proof (cases err)
    case None
    with cs have "[GetMessagesByUser (GetUserID ctx),
        Notify (GetUserID ctx) (MessageDeletions ms),
        DeleteMessagesByUser (GetUserID ctx)] = pre @ [x] @ post"
      by (simp add: DeleteMessages_run [OF fetch])
    from delete_is_last_of_three [OF this x] show ?thesis by simp
  next
    case (Some e)
    with cs have "[GetMessagesByUser (GetUserID ctx)] = pre @ [x] @ post"
      by (simp add: DeleteMessages_run [OF fetch])
    from no_delete_in_one [OF this x] show ?thesis by simp
  qed
  then show "x = DeleteMessagesByUser (GetUserID ctx)"
    and "Notify (GetUserID ctx) (MessageDeletions ms) \<in> set pre"
    by simp_all
next
  assume h: "DB_GetApplicationByID a i (store w) = ((app, err0), s0)
      \<and> DB_GetMessagesByApplication a i s0 = ((ms, err), s)
      \<and> calls (snd (DeleteMessageWithApplication a ctx i w)) = calls w @ pre @ [x] @ post
      \<and> isDelete x"
  then have lookup: "DB_GetApplicationByID a i (store w) = ((app, err0), s0)"
    and fetch: "DB_GetMessagesByApplication a i s0 = ((ms, err), s)"
    and cs: "calls (snd (DeleteMessageWithApplication a ctx i w)) = calls w @ pre @ [x] @ post"
    and x: "isDelete x"
    by simp_all
  note run = DeleteMessageWithApplication_run [OF lookup fetch]
  have "pre = [GetApplicationByID i, GetMessagesByApplication i,
          Notify (GetUserID ctx) (MessageDeletions ms)]
      \<and> x = DeleteMessagesByApplication i \<and> post = []
      \<and> app \<noteq> None \<and> UserID (the app) = GetUserID ctx"
  proof (cases "err0 = None \<and> app \<noteq> None \<and> UserID (the app) = GetUserID ctx")
    case allowed: True
    show ?thesis
    proof (cases err)
      case None
      with cs allowed have "[GetApplicationByID i, GetMessagesByApplication i,
          Notify (GetUserID ctx) (MessageDeletions ms), DeleteMessagesByApplication i]
          = pre @ [x] @ post"
        by (simp add: run)
      from delete_is_last_of_four [OF this x] allowed show ?thesis by simp
    next
      case (Some e)
      with cs allowed have "[GetApplicationByID i, GetMessagesByApplication i] = pre @ [x] @ post"
        by (simp add: run)
      from no_delete_in_two [OF this x] show ?thesis by simp
    qed
  next
    case False
    with cs have "[GetApplicationByID i] = pre @ [x] @ post"
      by (auto simp add: run split: option.splits if_splits)
    from no_delete_in_one [OF this x] show ?thesis by simp
  qed
  then show "x = DeleteMessagesByApplication i"
    and "\<exists>owner. app = Some owner \<and> Notify (UserID owner) (MessageDeletions ms) \<in> set pre"
    by auto
next
  assume h: "DB_GetMessageByID a i (store w) = ((found, err0), s0)
      \<and> DB_GetApplicationByID a (ApplicationID (the found)) s0 = ((app, err), s)
      \<and> calls (snd (DeleteMessage a ctx i w)) = calls w @ pre @ [x] @ post
      \<and> isDelete x"
  then have fetch: "DB_GetMessageByID a i (store w) = ((found, err0), s0)"
    and lookup: "DB_GetApplicationByID a (ApplicationID (the found)) s0 = ((app, err), s)"
    and cs: "calls (snd (DeleteMessage a ctx i w)) = calls w @ pre @ [x] @ post"
    and x: "isDelete x"
    by simp_all
  have "\<exists>m. found = Some m
      \<and> pre = [GetMessageByID i, GetApplicationByID (ApplicationID m),
          Notify (GetUserID ctx) (MessageDeletions [m])]
      \<and> x = DeleteMessageByID i \<and> post = []
      \<and> app \<noteq> None \<and> UserID (the app) = GetUserID ctx"
  proof (cases "err0 \<noteq> None \<or> found = None")
    case True
    from cs have "[GetMessageByID i] = pre @ [x] @ post"
      by (simp add: DeleteMessage_run_unknown [OF fetch True])
    from no_delete_in_one [OF this x] show ?thesis by simp
  next
    case False
    then obtain m where m: "found = Some m" and e0: "err0 = None" by auto
    from fetch lookup have fetch': "DB_GetMessageByID a i (store w) = ((Some m, None), s0)"
      and lookup': "DB_GetApplicationByID a (ApplicationID m) s0 = ((app, err), s)"
      by (simp_all add: m e0)
    note run = DeleteMessage_run [OF fetch' lookup']
    show ?thesis
    proof (cases "err = None \<and> app \<noteq> None \<and> UserID (the app) = GetUserID ctx")
      case True
      with cs have "[GetMessageByID i, GetApplicationByID (ApplicationID m),
          Notify (GetUserID ctx) (MessageDeletions [m]), DeleteMessageByID i] = pre @ [x] @ post"
        by (simp add: run)
      from delete_is_last_of_four [OF this x] True m show ?thesis by simp
    next
      case False
      with cs have "[GetMessageByID i, GetApplicationByID (ApplicationID m)] = pre @ [x] @ post"
        by (auto simp add: run split: option.splits if_splits)
      from no_delete_in_two [OF this x] show ?thesis by simp
    qed
  qed
  then show "x = DeleteMessageByID i"
    and "\<exists>m owner. found = Some m \<and> app = Some owner
           \<and> Notify (UserID owner) (MessageDeletions [m]) \<in> set pre"
    by auto
qed


theorem notify_precedes_delete_witness:
  "calls (snd (DeleteMessages memDB ctx0 world0))
     = [GetMessagesByUser 1, Notify 1 (MessageDeletions userMessages), DeleteMessagesByUser 1]
   \<and> calls (snd (DeleteMessageWithApplication memDB ctx0 1 world0))
       = [GetApplicationByID 1, GetMessagesByApplication 1,
          Notify 1 (MessageDeletions userMessages), DeleteMessagesByApplication 1]
   \<and> calls (snd (DeleteMessage memDB ctx0 10 world0))
       = [GetMessageByID 10, GetApplicationByID 1,
          Notify 1 (MessageDeletions [mkMessage 10 1 ''d'']), DeleteMessageByID 10]
   \<and> Notify (GetUserID ctx0) (MessageDeletions userMessages)
       \<in> set [GetMessagesByUser 1, Notify 1 (MessageDeletions userMessages)]
   \<and> (\<exists>owner. Some weatherBot = Some owner
        \<and> Notify (UserID owner) (MessageDeletions userMessages)
            \<in> set [GetApplicationByID 1, GetMessagesByApplication 1,
                    Notify 1 (MessageDeletions userMessages)])
   \<and> (\<exists>m owner. Some (mkMessage 10 1 ''d'') = Some m \<and> Some weatherBot = Some owner
        \<and> Notify (UserID owner) (MessageDeletions [m])
            \<in> set [GetMessageByID 10, GetApplicationByID 1,
                    Notify 1 (MessageDeletions [mkMessage 10 1 ''d''])])"
proof -
  have no_calls: "calls world0 = []" by (simp add: world0_def)
  have fetch_user: "DB_GetMessagesByUser memDB (GetUserID ctx0) (store world0)
      = ((userMessages, None), store0)"
    by code_simp
  have run_user: "calls (snd (DeleteMessages memDB ctx0 world0))
      = [GetMessagesByUser 1, Notify 1 (MessageDeletions userMessages), DeleteMessagesByUser 1]"
    by code_simp
  have lookup_app: "DB_GetApplicationByID memDB 1 (store world0) = ((Some weatherBot, None), store0)"
    by code_simp
  have fetch_app: "DB_GetMessagesByApplication memDB 1 store0 = ((userMessages, None), store0)"
    by code_simp
  have run_app: "calls (snd (DeleteMessageWithApplication memDB ctx0 1 world0))
      = [GetApplicationByID 1, GetMessagesByApplication 1,
         Notify 1 (MessageDeletions userMessages), DeleteMessagesByApplication 1]"
    by code_simp
  have fetch_one: "DB_GetMessageByID memDB 10 (store world0)
      = ((Some (mkMessage 10 1 ''d''), None), store0)"
    by code_simp
  have lookup_one: "DB_GetApplicationByID memDB (ApplicationID (the (Some (mkMessage 10 1 ''d''))))
      store0 = ((Some weatherBot, None), store0)"
    by code_simp
  have run_one: "calls (snd (DeleteMessage memDB ctx0 10 world0))
      = [GetMessageByID 10, GetApplicationByID 1,
         Notify 1 (MessageDeletions [mkMessage 10 1 ''d'']), DeleteMessageByID 10]"
    by code_simp
  have uid: "GetUserID ctx0 = 1" by (simp add: ctx0_def)
  have user_hyp: "DB_GetMessagesByUser memDB (GetUserID ctx0) (store world0)
        = ((userMessages, None), store0)
      \<and> calls (snd (DeleteMessages memDB ctx0 world0))
          = calls world0 @ [GetMessagesByUser 1, Notify 1 (MessageDeletions userMessages)]
              @ [DeleteMessagesByUser 1] @ []
      \<and> isDelete (DeleteMessagesByUser 1)"
    using fetch_user run_user no_calls by simp
  have user: "Notify (GetUserID ctx0) (MessageDeletions userMessages)
       \<in> set [GetMessagesByUser 1, Notify 1 (MessageDeletions userMessages)]"
    using notify_precedes_delete [where a = memDB and ctx = ctx0 and w = world0
        and ms = userMessages and err = None and s = store0
        and pre = "[GetMessagesByUser 1, Notify 1 (MessageDeletions userMessages)]"
        and x = "DeleteMessagesByUser 1" and post = "[]", THEN conjunct1, THEN mp, OF user_hyp]
    by (rule conjunct2)
  have app_hyp: "DB_GetApplicationByID memDB 1 (store world0) = ((Some weatherBot, None), store0)
      \<and> DB_GetMessagesByApplication memDB 1 store0 = ((userMessages, None), store0)
      \<and> calls (snd (DeleteMessageWithApplication memDB ctx0 1 world0))
          = calls world0 @ [GetApplicationByID 1, GetMessagesByApplication 1,
                    Notify 1 (MessageDeletions userMessages)]
              @ [DeleteMessagesByApplication 1] @ []
      \<and> isDelete (DeleteMessagesByApplication 1)"
    using lookup_app fetch_app run_app no_calls by simp
  have app: "\<exists>owner. Some weatherBot = Some owner
        \<and> Notify (UserID owner) (MessageDeletions userMessages)
            \<in> set [GetApplicationByID 1, GetMessagesByApplication 1,
                    Notify 1 (MessageDeletions userMessages)]"
    using notify_precedes_delete [where a = memDB and ctx = ctx0 and w = world0 and i = 1
        and app = "Some weatherBot" and err0 = None and s0 = store0
        and ms = userMessages and err = None and s = store0
        and pre = "[GetApplicationByID 1, GetMessagesByApplication 1,
                    Notify 1 (MessageDeletions userMessages)]"
        and x = "DeleteMessagesByApplication 1" and post = "[]",
        THEN conjunct2, THEN conjunct1, THEN mp, OF app_hyp]
    by (rule conjunct2)
  have one_hyp: "DB_GetMessageByID memDB 10 (store world0)
        = ((Some (mkMessage 10 1 ''d''), None), store0)
      \<and> DB_GetApplicationByID memDB (ApplicationID (the (Some (mkMessage 10 1 ''d'')))) store0
          = ((Some weatherBot, None), store0)
      \<and> calls (snd (DeleteMessage memDB ctx0 10 world0))
          = calls world0 @ [GetMessageByID 10, GetApplicationByID 1,
                    Notify 1 (MessageDeletions [mkMessage 10 1 ''d''])]
              @ [DeleteMessageByID 10] @ []
      \<and> isDelete (DeleteMessageByID 10)"
    using fetch_one lookup_one run_one no_calls by simp
  have one: "\<exists>m owner. Some (mkMessage 10 1 ''d'') = Some m \<and> Some weatherBot = Some owner
        \<and> Notify (UserID owner) (MessageDeletions [m])
            \<in> set [GetMessageByID 10, GetApplicationByID 1,
                    Notify 1 (MessageDeletions [mkMessage 10 1 ''d''])]"
    using notify_precedes_delete [where a = memDB and ctx = ctx0 and w = world0 and i = 10
        and found = "Some (mkMessage 10 1 ''d'')" and err0 = None and s0 = store0
        and app = "Some weatherBot" and err = None and s = store0
        and pre = "[GetMessageByID 10, GetApplicationByID 1,
                    Notify 1 (MessageDeletions [mkMessage 10 1 ''d''])]"
        and x = "DeleteMessageByID 10" and post = "[]",
        THEN conjunct2, THEN conjunct2, THEN mp, OF one_hyp]
    by (rule conjunct2)
  from run_user run_app run_one user app one show ?thesis by (intro conjI)
qed

section \<open>Storage failures\<close>

text \<open>
  C6. When the repository call that fetches the messages to delete fails, the delete
  handler aborts with status 500 and the storage error; its only calls are the lookups
  up to the failed fetch, so neither \<open>Notify\<close> nor a delete of the repository runs, and
  the repository is left as the failed fetch left it.
\<close>

theorem failed_fetch_aborts_delete:
  "(DB_GetMessagesByUser a (GetUserID ctx) (store w) = ((ms, Some e), s)
    \<longrightarrow> DeleteMessages a ctx w
          = (AbortWithError 500 e,
             \<lparr>store = s, calls = calls w @ [GetMessagesByUser (GetUserID ctx)]\<rparr>))
   \<and> (DB_GetApplicationByID a i (store w) = ((Some app, None), s0)
      \<and> UserID app = GetUserID ctx
      \<and> DB_GetMessagesByApplication a i s0 = ((ms, Some e), s)
      \<longrightarrow> DeleteMessageWithApplication a ctx i w
            = (AbortWithError 500 e,
               \<lparr>store = s,
                calls = calls w @ [GetApplicationByID i, GetMessagesByApplication i]\<rparr>))
   \<and> (DB_GetMessageByID a i (store w) = ((found, Some e), s)
      \<longrightarrow> DeleteMessage a ctx i w
            = (AbortWithError 500 e, \<lparr>store = s, calls = calls w @ [GetMessageByID i]\<rparr>))"
proof (intro conjI impI)
  assume "DB_GetMessagesByUser a (GetUserID ctx) (store w) = ((ms, Some e), s)"
  from DeleteMessages_run [OF this]
  show "DeleteMessages a ctx w
      = (AbortWithError 500 e, \<lparr>store = s, calls = calls w @ [GetMessagesByUser (GetUserID ctx)]\<rparr>)"
    by simp
next
  assume h: "DB_GetApplicationByID a i (store w) = ((Some app, None), s0)
      \<and> UserID app = GetUserID ctx
      \<and> DB_GetMessagesByApplication a i s0 = ((ms, Some e), s)"
  then have lookup: "DB_GetApplicationByID a i (store w) = ((Some app, None), s0)"
    and owner: "UserID app = GetUserID ctx"
    and fetch: "DB_GetMessagesByApplication a i s0 = ((ms, Some e), s)"
    by simp_all
  from DeleteMessageWithApplication_run [OF lookup fetch] owner
  show "DeleteMessageWithApplication a ctx i w
      = (AbortWithError 500 e,
         \<lparr>store = s, calls = calls w @ [GetApplicationByID i, GetMessagesByApplication i]\<rparr>)"
    by simp
next
  assume fetch: "DB_GetMessageByID a i (store w) = ((found, Some e), s)"
  have "Some e \<noteq> None \<or> found = None" by simp
  from DeleteMessage_run_unknown [OF fetch this]
  show "DeleteMessage a ctx i w
      = (AbortWithError 500 e, \<lparr>store = s, calls = calls w @ [GetMessageByID i]\<rparr>)"
    by simp
qed

theorem failed_fetch_aborts_delete_witness:
  "DeleteMessages memDB ctx0 \<lparr>store = brokenFetch, calls = []\<rparr>
     = (AbortWithError 500 ''storage error'',
        \<lparr>store = brokenFetch, calls = [GetMessagesByUser 1]\<rparr>)
   \<and> DeleteMessageWithApplication memDB ctx0 1 \<lparr>store = brokenFetch, calls = []\<rparr>
       = (AbortWithError 500 ''storage error'',
          \<lparr>store = brokenFetch, calls = [GetApplicationByID 1, GetMessagesByApplication 1]\<rparr>)
   \<and> DeleteMessage memDB ctx0 10 \<lparr>store = brokenFetch, calls = []\<rparr>
       = (AbortWithError 500 ''storage error'',
          \<lparr>store = brokenFetch, calls = [GetMessageByID 10]\<rparr>)"
proof -
  let ?w = "\<lparr>store = brokenFetch, calls = []\<rparr>"
  have uid: "GetUserID ctx0 = 1" by (simp add: ctx0_def)
  have fetch_user: "DB_GetMessagesByUser memDB (GetUserID ctx0) (store ?w)
      = (([], Some ''storage error''), brokenFetch)"
    by code_simp
  have lookup_app: "DB_GetApplicationByID memDB 1 (store ?w) = ((Some weatherBot, None), brokenFetch)
      \<and> UserID weatherBot = GetUserID ctx0
      \<and> DB_GetMessagesByApplication memDB 1 brokenFetch
          = (([], Some ''storage error''), brokenFetch)"
    by code_simp
  have fetch_one: "DB_GetMessageByID memDB 10 (store ?w)
      = ((None, Some ''storage error''), brokenFetch)"
    by code_simp
  note part = failed_fetch_aborts_delete [where a = memDB and ctx = ctx0 and w = ?w
      and e = "''storage error''" and s = brokenFetch and ms = "[]" and i = 1
      and app = weatherBot and s0 = brokenFetch]
  note part' = failed_fetch_aborts_delete [where a = memDB and ctx = ctx0 and w = ?w
      and e = "''storage error''" and s = brokenFetch and i = 10 and found = None]
  from part [THEN conjunct1, THEN mp, OF fetch_user]
    part [THEN conjunct2, THEN conjunct1, THEN mp, OF lookup_app]
    part' [THEN conjunct2, THEN conjunct2, THEN mp, OF fetch_one]
  show ?thesis by (simp add: uid)
qed

text \<open>
  C5. When the repository fails to persist the message of a create request, the handler
  aborts with status 500 and the storage error; its calls are the token lookup and the
  failed create, and no \<open>Notify\<close> is among them.
\<close>

theorem failed_persist_sends_no_notification:
  "Bind ctx = Inr appMessage
   \<and> DB_GetApplicationByToken a (GetTokenID ctx) (store w) = ((Some application, None), s0)
   \<and> DB_CreateMessage a (newMessage appMessage application) s0 = ((m', Some e), s)
   \<longrightarrow> fst (CreateMessage a ctx w) = AbortWithError 500 e
       \<and> calls (snd (CreateMessage a ctx w))
           = calls w @ [GetApplicationByToken (GetTokenID ctx),
                        CreateMessageCall (newMessage appMessage application)]
       \<and> (\<forall>userID event.
             Notify userID event
               \<notin> set (drop (length (calls w)) (calls (snd (CreateMessage a ctx w)))))"
proof
  assume h: "Bind ctx = Inr appMessage
   \<and> DB_GetApplicationByToken a (GetTokenID ctx) (store w) = ((Some application, None), s0)
   \<and> DB_CreateMessage a (newMessage appMessage application) s0 = ((m', Some e), s)"
  then have bound: "Bind ctx = Inr appMessage"
    and resolved: "DB_GetApplicationByToken a (GetTokenID ctx) (store w)
        = ((Some application, None), s0)"
    and persist: "DB_CreateMessage a (newMessage appMessage application) s0 = ((m', Some e), s)"
    by simp_all
  from CreateMessage_run [OF bound resolved persist]
  have run: "CreateMessage a ctx w =
      (AbortWithError 500 e,
       \<lparr>store = s,
        calls = calls w @ [GetApplicationByToken (GetTokenID ctx),
                  CreateMessageCall (newMessage appMessage application)]\<rparr>)"
    by simp
  then show "fst (CreateMessage a ctx w) = AbortWithError 500 e
       \<and> calls (snd (CreateMessage a ctx w))
           = calls w @ [GetApplicationByToken (GetTokenID ctx),
                        CreateMessageCall (newMessage appMessage application)]
       \<and> (\<forall>userID event.
             Notify userID event
               \<notin> set (drop (length (calls w)) (calls (snd (CreateMessage a ctx w)))))"
    by auto
qed

theorem failed_persist_sends_no_notification_witness:
  "CreateMessage memDB ctx0 \<lparr>store = brokenCreate, calls = []\<rparr>
     = (AbortWithError 500 ''storage error'',
        \<lparr>store = brokenCreate,
         calls = [GetApplicationByToken ''Atoken1'', CreateMessageCall storm]\<rparr>)
   \<and> fst (CreateMessage memDB ctx0 \<lparr>store = brokenCreate, calls = []\<rparr>)
       = AbortWithError 500 ''storage error''
   \<and> calls (snd (CreateMessage memDB ctx0 \<lparr>store = brokenCreate, calls = []\<rparr>))
       = [GetApplicationByToken ''Atoken1'', CreateMessageCall storm]"
proof -
  let ?w = "\<lparr>store = brokenCreate, calls = []\<rparr>"
  have run: "CreateMessage memDB ctx0 ?w
     = (AbortWithError 500 ''storage error'',
        \<lparr>store = brokenCreate,
         calls = [GetApplicationByToken ''Atoken1'', CreateMessageCall storm]\<rparr>)"
    by code_simp
  have new: "newMessage \<lparr>req_Body = ''rain'', req_Title = ''Storm'', req_Priority = 5,
      req_Extras = []\<rparr> weatherBot = storm"
    by code_simp
  have tok: "GetTokenID ctx0 = ''Atoken1''" by (simp add: ctx0_def)
  have hyp: "Bind ctx0 = Inr \<lparr>req_Body = ''rain'', req_Title = ''Storm'', req_Priority = 5,
        req_Extras = []\<rparr>
      \<and> DB_GetApplicationByToken memDB (GetTokenID ctx0) (store ?w)
          = ((Some weatherBot, None), brokenCreate)
      \<and> DB_CreateMessage memDB (newMessage \<lparr>req_Body = ''rain'', req_Title = ''Storm'',
            req_Priority = 5, req_Extras = []\<rparr> weatherBot) brokenCreate
          = ((storm, Some ''storage error''), brokenCreate)"
    by code_simp
  from failed_persist_sends_no_notification [where a = memDB and ctx = ctx0 and w = ?w
      and s0 = brokenCreate and s = brokenCreate and application = weatherBot and m' = storm
      and e = "''storage error''", THEN mp, OF hyp] run
  show ?thesis by (simp only: new tok) simp
qed

text \<open>
  C8 (where the code departs from the claim). When the token of a create request
  resolves to no application (the repository returns nil and no error), the handler
  panics on \<open>application.ID\<close>: it answers neither 401 nor anything else. Nothing is
  persisted and nobody is notified.
\<close>

theorem unresolved_token_panics:
  "Bind ctx = Inr appMessage
   \<and> DB_GetApplicationByToken a (GetTokenID ctx) (store w) = ((None, None), s)
   \<longrightarrow> CreateMessage a ctx w
        = (Panic NilPointerDereference,
           \<lparr>store = s, calls = calls w @ [GetApplicationByToken (GetTokenID ctx)]\<rparr>)"
proof
  assume h: "Bind ctx = Inr appMessage
   \<and> DB_GetApplicationByToken a (GetTokenID ctx) (store w) = ((None, None), s)"
  then have bound: "Bind ctx = Inr appMessage"
    and unresolved: "DB_GetApplicationByToken a (GetTokenID ctx) (store w) = ((None, None), s)"
    by simp_all
  have "(None :: error option) \<noteq> None \<or> (None :: Application option) = None" by simp
  from CreateMessage_run_unresolved [OF bound unresolved this]
  show "CreateMessage a ctx w
        = (Panic NilPointerDereference,
           \<lparr>store = s, calls = calls w @ [GetApplicationByToken (GetTokenID ctx)]\<rparr>)"
    by simp
qed

theorem unresolved_token_panics_witness:
  "CreateMessage memDB (ctx0\<lparr>GetTokenID := ''Aunknown''\<rparr>) world0
     = (Panic NilPointerDereference,
        \<lparr>store = store0, calls = [GetApplicationByToken ''Aunknown'']\<rparr>)"
proof -
  let ?ctx = "ctx0\<lparr>GetTokenID := ''Aunknown''\<rparr>"
  have hyp: "Bind ?ctx = Inr \<lparr>req_Body = ''rain'', req_Title = ''Storm'', req_Priority = 5,
        req_Extras = []\<rparr>
      \<and> DB_GetApplicationByToken memDB (GetTokenID ?ctx) (store world0)
          = ((None, None), store0)"
    by code_simp
  from unresolved_token_panics [where a = memDB and ctx = ?ctx and w = world0 and s = store0,
      THEN mp, OF hyp]
  show ?thesis by (simp add: world0_def ctx0_def)
qed

section \<open>The title of a created message\<close>

lemma whitespace_nonempty: "w \<in> set whitespace \<Longrightarrow> w \<noteq> []"
proof -
  have "\<forall>w\<in>set whitespace. w \<noteq> []" by code_simp
  then show "w \<in> set whitespace \<Longrightarrow> w \<noteq> []" by blast
qed

lemma whitespace_prefix_free:
  assumes "w \<in> set whitespace" and "w' \<in> set whitespace" and "prefix w w'"
  shows "w = w'"
proof -
  have "\<forall>w\<in>set whitespace. \<forall>w'\<in>set whitespace. prefix w w' \<longrightarrow> w = w'" by code_simp
  with assms show ?thesis by blast
qed

lemma whitespace_same_prefix:
  assumes "w \<in> set whitespace" and "w' \<in> set whitespace" and "prefix w s" and "prefix w' s"
  shows "w = w'"
proof -
  from assms(3,4) have "prefix w w' \<or> prefix w' w" by (rule prefix_same_cases)
  then show ?thesis
    using whitespace_prefix_free [OF assms(1,2)] whitespace_prefix_free [OF assms(2,1)] by auto
qed

lemma spaceWidth_0: "spaceWidth s = 0 \<longleftrightarrow> \<not> (\<exists>w\<in>set whitespace. prefix w s)"
proof
  assume z: "spaceWidth s = 0"
  show "\<not> (\<exists>w\<in>set whitespace. prefix w s)"
  proof (cases "find (\<lambda>w. prefix w s) whitespace")
    case None
    then show ?thesis by (simp add: find_None_iff)
  next
    case (Some w)
    then have "w \<in> set whitespace" by (auto simp: find_Some_iff)
    from whitespace_nonempty [OF this] z Some show ?thesis by (simp add: spaceWidth_def)
  qed
next
  assume "\<not> (\<exists>w\<in>set whitespace. prefix w s)"
  then have "find (\<lambda>w. prefix w s) whitespace = None" by (simp add: find_None_iff)
  then show "spaceWidth s = 0" by (simp add: spaceWidth_def)
qed

lemma spaceWidth_prefix:
  assumes "w \<in> set whitespace" and "prefix w s"
  shows "spaceWidth s = length w"
proof (cases "find (\<lambda>w. prefix w s) whitespace")
  case None
  with assms show ?thesis by (auto simp: find_None_iff)
next
  case (Some w')
  then have "w' \<in> set whitespace" and "prefix w' s" by (auto simp: find_Some_iff)
  from whitespace_same_prefix [OF assms(1) this(1) assms(2) this(2)] Some
  show ?thesis by (simp add: spaceWidth_def)
qed

lemma whitespaceOnly_step:
  assumes "w \<in> set whitespace" and "prefix w s"
  shows "whitespaceOnly s \<longleftrightarrow> whitespaceOnly (drop (length w) s)"
proof -
  from assms have ne: "s \<noteq> []" using whitespace_nonempty by auto
  show ?thesis
  proof
    assume "whitespaceOnly s"
    with ne obtain w' where w': "w' \<in> set whitespace" "w' \<noteq> []" "prefix w' s"
      "whitespaceOnly (drop (length w') s)"
      by (subst (asm) whitespaceOnly.simps) (auto split: if_splits)
    from whitespace_same_prefix [OF assms(1) w'(1) assms(2) w'(3)] w'(4)
    show "whitespaceOnly (drop (length w) s)" by simp
  next
    assume "whitespaceOnly (drop (length w) s)"
    with assms ne whitespace_nonempty [OF assms(1)] show "whitespaceOnly s"
      by (subst whitespaceOnly.simps) auto
  qed
qed

lemma whitespaceOnly_Nil: "whitespaceOnly []"
  by (subst whitespaceOnly.simps) simp

lemma whitespaceOnly_TrimLeft: "whitespaceOnly s \<longleftrightarrow> TrimLeft s = []"
proof (induction s rule: TrimLeft.induct)
  case (1 s)
  show ?case
  proof (cases "s = []")
    case True
    then show ?thesis by (simp add: whitespaceOnly_Nil TrimLeft.simps)
  next
    case ne: False
    show ?thesis
    proof (cases "spaceWidth s = 0")
      case True
      then have none: "\<not> (\<exists>w\<in>set whitespace. prefix w s)" by (simp add: spaceWidth_0)
      have "\<not> whitespaceOnly s"
        using ne none by (subst whitespaceOnly.simps) auto
      moreover have "TrimLeft s = s" using True by (subst TrimLeft.simps) simp
      ultimately show ?thesis using ne by simp
    next
      case False
      then obtain w where w: "w \<in> set whitespace" "prefix w s"
        by (auto simp: spaceWidth_0)
      have n: "spaceWidth s = length w" by (rule spaceWidth_prefix [OF w])
      have "TrimLeft s = TrimLeft (drop (spaceWidth s) s)"
        using ne False by (subst TrimLeft.simps) simp
      moreover have "whitespaceOnly s \<longleftrightarrow> whitespaceOnly (drop (spaceWidth s) s)"
        using whitespaceOnly_step [OF w] by (simp add: n)
      moreover have "whitespaceOnly (drop (spaceWidth s) s)
          \<longleftrightarrow> TrimLeft (drop (spaceWidth s) s) = []"
        using ne False by (intro "1.IH") simp
      ultimately show ?thesis by simp
    qed
  qed
qed

lemma TrimLeft_idem: "TrimLeft (TrimLeft s) = TrimLeft s"
proof (induction s rule: TrimLeft.induct)
  case (1 s)
  show ?case
  proof (cases "s = [] \<or> spaceWidth s = 0")
    case True
    then have "TrimLeft s = s" by (subst TrimLeft.simps) simp
    then show ?thesis by simp
  next
    case False
    then have "TrimLeft s = TrimLeft (drop (spaceWidth s) s)" by (subst TrimLeft.simps) simp
    with "1.IH" [OF False] show ?thesis by simp
  qed
qed

lemma whitespaceOnly_append:
  "whitespaceOnly xs \<Longrightarrow> whitespaceOnly ys \<Longrightarrow> whitespaceOnly (xs @ ys)"
proof (induction xs rule: length_induct)
  case (1 xs)
  show ?case
  proof (cases "xs = []")
    case True
    with 1 show ?thesis by simp
  next
    case False
    with "1.prems"(1) obtain w where w: "w \<in> set whitespace" "w \<noteq> []" "prefix w xs"
      "whitespaceOnly (drop (length w) xs)"
      by (subst (asm) whitespaceOnly.simps) (auto split: if_splits)
    from w(3) have len: "length w \<le> length xs" by (rule prefix_length_le)
    from w(2) False have "length (drop (length w) xs) < length xs" by simp
    with "1.IH" w(4) "1.prems"(2) have "whitespaceOnly (drop (length w) xs @ ys)" by blast
    then have "whitespaceOnly (drop (length w) (xs @ ys))" using len by simp
    moreover from w(3) have "prefix w (xs @ ys)" by (rule prefix_prefix)
    ultimately show ?thesis using whitespaceOnly_step [OF w(1)] by blast
  qed
qed

lemma whitespaceOnly_single: "w \<in> set whitespace \<Longrightarrow> whitespaceOnly w"
  using whitespaceOnly_step [of w w] by (simp add: whitespaceOnly_Nil)

lemma lastSpaceWidth_suffix:
  assumes "lastSpaceWidth s \<noteq> 0"
  shows "\<exists>w\<in>set whitespace. suffix w s \<and> lastSpaceWidth s = length w"
proof (cases "find (\<lambda>w. suffix w s) whitespace")
  case None
  with assms show ?thesis by (simp add: lastSpaceWidth_def)
next
  case (Some w)
  then have "w \<in> set whitespace" and "suffix w s" by (auto simp: find_Some_iff)
  with Some show ?thesis by (auto simp: lastSpaceWidth_def)
qed

lemma TrimRight_Nil_whitespaceOnly: "TrimRight s = [] \<Longrightarrow> whitespaceOnly s"
proof (induction s rule: TrimRight.induct)
  case (1 s)
  show ?case
  proof (cases "s = [] \<or> lastSpaceWidth s = 0")
    case True
    then have "TrimRight s = s" by (subst TrimRight.simps) simp
    with "1.prems" show ?thesis by (simp add: whitespaceOnly_Nil)
  next
    case False
    then have step: "TrimRight s = TrimRight (take (length s - lastSpaceWidth s) s)"
      by (subst TrimRight.simps) simp
    from False obtain w where w: "w \<in> set whitespace" "suffix w s"
      "lastSpaceWidth s = length w"
      using lastSpaceWidth_suffix by blast
    from w(2) obtain front where s: "s = front @ w" by (auto simp: suffix_def)
    have "take (length s - length w) s = front" unfolding s by simp
    then have front: "take (length s - lastSpaceWidth s) s = front" by (simp only: w(3))
    from "1.IH" [OF False] "1.prems" step have "whitespaceOnly front" by (simp add: front)
    from whitespaceOnly_append [OF this whitespaceOnly_single [OF w(1)]] s
    show ?thesis by simp
  qed
qed

lemma TrimSpace_empty_iff: "TrimSpace s = [] \<longleftrightarrow> whitespaceOnly s"
proof
  assume "TrimSpace s = []"
  then have "whitespaceOnly (TrimLeft s)"
    unfolding TrimSpace_def by (rule TrimRight_Nil_whitespaceOnly)
  then have "TrimLeft (TrimLeft s) = []" by (simp add: whitespaceOnly_TrimLeft)
  then have "TrimLeft s = []" by (simp add: TrimLeft_idem)
  then show "whitespaceOnly s" by (simp add: whitespaceOnly_TrimLeft)
next
  assume "whitespaceOnly s"
  then have "TrimLeft s = []" by (simp add: whitespaceOnly_TrimLeft)
  then show "TrimSpace s = []"
    unfolding TrimSpace_def by (subst TrimRight.simps) simp
qed


lemma CreateMessage_run_unbound:
  assumes "Bind ctx = Inl e"
  shows "CreateMessage a ctx w = (AbortWithError 400 e, w)"
  using assms by (simp add: CreateMessage_def)

lemma newMessage_Title:
  "Title (newMessage appMessage application) =
     (if whitespaceOnly (req_Title appMessage) then Name application else req_Title appMessage)"
  by (simp add: newMessage_def ToInternal_def Let_def TrimSpace_empty_iff)

text \<open>
  C9. In every successful create request the message that the handler hands to the
  repository has the display name of the resolved application as its title when the
  supplied title is empty or consists only of white space, and the supplied title,
  unchanged, otherwise.
\<close>

theorem created_title_defaults_to_application_name:
  "fst (CreateMessage a ctx w) = JSON 200 body
   \<longrightarrow> (\<exists>appMessage application s0 m m'.
          Bind ctx = Inr appMessage
          \<and> DB_GetApplicationByToken a (GetTokenID ctx) (store w) = ((Some application, None), s0)
          \<and> calls (snd (CreateMessage a ctx w))
              = calls w @ [GetApplicationByToken (GetTokenID ctx), CreateMessageCall m,
                           Notify (GetUserID ctx) (MessageCreated m')]
          \<and> Title m = (if whitespaceOnly (req_Title appMessage) then Name application
                       else req_Title appMessage))"
proof
  assume ok: "fst (CreateMessage a ctx w) = JSON 200 body"
  obtain appMessage where bound: "Bind ctx = Inr appMessage"
  proof (cases "Bind ctx")
    case (Inl e)
    from CreateMessage_run_unbound [OF this, where a = a and w = w] ok show ?thesis by simp
  next
    case (Inr r)
    then show ?thesis by (rule that)
  qed
  obtain found err s0
    where lookup: "DB_GetApplicationByToken a (GetTokenID ctx) (store w) = ((found, err), s0)"
    by (metis prod.exhaust)
  have "\<not> (err \<noteq> None \<or> found = None)"
  proof
    assume "err \<noteq> None \<or> found = None"
    from CreateMessage_run_unresolved [OF bound lookup this] ok show False
      by (simp split: option.splits)
  qed
  then obtain application where found: "found = Some application" and err: "err = None"
    by auto
  from lookup have resolved: "DB_GetApplicationByToken a (GetTokenID ctx) (store w)
      = ((Some application, None), s0)"
    by (simp add: found err)
  obtain m' err' s
    where persist: "DB_CreateMessage a (newMessage appMessage application) s0 = ((m', err'), s)"
    by (metis prod.exhaust)
  note run = CreateMessage_run [OF bound resolved persist]
  have "err' = None"
  proof (cases err')
    case None
    then show ?thesis .
  next
    case (Some e)
    with run ok show ?thesis by simp
  qed
  with run have "calls (snd (CreateMessage a ctx w))
      = calls w @ [GetApplicationByToken (GetTokenID ctx),
                   CreateMessageCall (newMessage appMessage application),
                   Notify (GetUserID ctx) (MessageCreated m')]"
    by simp
  with bound resolved newMessage_Title [of appMessage application]
  show "\<exists>appMessage application s0 m m'.
          Bind ctx = Inr appMessage
          \<and> DB_GetApplicationByToken a (GetTokenID ctx) (store w) = ((Some application, None), s0)
          \<and> calls (snd (CreateMessage a ctx w))
              = calls w @ [GetApplicationByToken (GetTokenID ctx), CreateMessageCall m,
                           Notify (GetUserID ctx) (MessageCreated m')]
          \<and> Title m = (if whitespaceOnly (req_Title appMessage) then Name application
                       else req_Title appMessage)"
    by blast
qed

theorem created_title_defaults_to_application_name_witness:
  "CreateMessage memDB ctx0 world0
     = (JSON 200 (MessageBody (ToExternal (storm\<lparr>ID := 12\<rparr>))),
        \<lparr>store = store0\<lparr>storedMessages := storedMessages store0 @ [storm\<lparr>ID := 12\<rparr>]\<rparr>,
         calls = [GetApplicationByToken ''Atoken1'', CreateMessageCall storm,
                  Notify 1 (MessageCreated (storm\<lparr>ID := 12\<rparr>))]\<rparr>)
   \<and> calls (snd (CreateMessage memDB ctxBlank world0))
       = [GetApplicationByToken ''Atoken1'', CreateMessageCall (storm\<lparr>Title := ''Weather Bot''\<rparr>),
          Notify 1 (MessageCreated (storm\<lparr>Title := ''Weather Bot'', ID := 12\<rparr>))]
   \<and> (\<exists>appMessage application s0 m m'.
          Bind ctx0 = Inr appMessage
          \<and> DB_GetApplicationByToken memDB (GetTokenID ctx0) (store world0)
              = ((Some application, None), s0)
          \<and> calls (snd (CreateMessage memDB ctx0 world0))
              = calls world0 @ [GetApplicationByToken (GetTokenID ctx0), CreateMessageCall m,
                           Notify (GetUserID ctx0) (MessageCreated m')]
          \<and> Title m = (if whitespaceOnly (req_Title appMessage) then Name application
                       else req_Title appMessage))
   \<and> (\<exists>appMessage application s0 m m'.
          Bind ctxBlank = Inr appMessage
          \<and> DB_GetApplicationByToken memDB (GetTokenID ctxBlank) (store world0)
              = ((Some application, None), s0)
          \<and> calls (snd (CreateMessage memDB ctxBlank world0))
              = calls world0 @ [GetApplicationByToken (GetTokenID ctxBlank), CreateMessageCall m,
                           Notify (GetUserID ctxBlank) (MessageCreated m')]
          \<and> Title m = (if whitespaceOnly (req_Title appMessage) then Name application
                       else req_Title appMessage))"
proof -
  have run: "CreateMessage memDB ctx0 world0
     = (JSON 200 (MessageBody (ToExternal (storm\<lparr>ID := 12\<rparr>))),
        \<lparr>store = store0\<lparr>storedMessages := storedMessages store0 @ [storm\<lparr>ID := 12\<rparr>]\<rparr>,
         calls = [GetApplicationByToken ''Atoken1'', CreateMessageCall storm,
                  Notify 1 (MessageCreated (storm\<lparr>ID := 12\<rparr>))]\<rparr>)"
    by code_simp
  have blank_run: "CreateMessage memDB ctxBlank world0
     = (JSON 200 (MessageBody (ToExternal (storm\<lparr>Title := ''Weather Bot'', ID := 12\<rparr>))),
        \<lparr>store = store0\<lparr>storedMessages := storedMessages store0
                    @ [storm\<lparr>Title := ''Weather Bot'', ID := 12\<rparr>]\<rparr>,
         calls = [GetApplicationByToken ''Atoken1'',
                  CreateMessageCall (storm\<lparr>Title := ''Weather Bot''\<rparr>),
                  Notify 1 (MessageCreated (storm\<lparr>Title := ''Weather Bot'', ID := 12\<rparr>))]\<rparr>)"
    by code_simp
  have ok: "fst (CreateMessage memDB ctx0 world0)
      = JSON 200 (MessageBody (ToExternal (storm\<lparr>ID := 12\<rparr>)))"
    by (simp add: run)
  have blank_ok: "fst (CreateMessage memDB ctxBlank world0)
      = JSON 200 (MessageBody (ToExternal (storm\<lparr>Title := ''Weather Bot'', ID := 12\<rparr>)))"
    by (simp add: blank_run)
  note first = created_title_defaults_to_application_name [where a = memDB and ctx = ctx0
      and w = world0, THEN mp, OF ok]
  note second = created_title_defaults_to_application_name [where a = memDB and ctx = ctxBlank
      and w = world0, THEN mp, OF blank_ok]
  have calls2: "calls (snd (CreateMessage memDB ctxBlank world0))
       = [GetApplicationByToken ''Atoken1'', CreateMessageCall (storm\<lparr>Title := ''Weather Bot''\<rparr>),
          Notify 1 (MessageCreated (storm\<lparr>Title := ''Weather Bot'', ID := 12\<rparr>))]"
    by (simp add: blank_run)
  from run calls2 first second show ?thesis by (intro conjI)
qed

section \<open>The next-page URL\<close>

lemma digit_decimal: "d < 10 \<Longrightarrow> digit d \<in> set ''0123456789''"
  unfolding digit_def by (rule nth_mem) simp

lemma FormatUint_decimal: "set (FormatUint n) \<subseteq> set ''0123456789''"
proof (induction n rule: FormatUint.induct)
  case (1 n)
  show ?case
  proof (cases "n < 10")
    case True
    then have "FormatUint n = [digit n]" by (subst FormatUint.simps) simp
    with digit_decimal [OF True] show ?thesis by simp
  next
    case False
    then have "FormatUint n = FormatUint (n div 10) @ [digit (n mod 10)]"
      by (subst FormatUint.simps) simp
    moreover have "digit (n mod 10) \<in> set ''0123456789''" by (rule digit_decimal) simp
    ultimately show ?thesis using "1.IH" [OF False] by simp
  qed
qed

lemma plain_FormatUint: "plain (FormatUint n)"
proof -
  have "set ''0123456789'' \<subseteq> set ''-0123456789''" by (rule set_subset_Cons)
  with FormatUint_decimal [of n] show ?thesis unfolding plain_def by (rule subset_trans)
qed

lemma plain_Itoa: "plain (Itoa i)"
proof (cases "i < 0")
  case True
  then have "Itoa i = CHR ''-'' # FormatUint (nat (- i))" by (simp add: Itoa_def)
  moreover have "insert (CHR ''-'') (set (FormatUint (nat (- i))))
      \<subseteq> insert (CHR ''-'') (set ''0123456789'')"
    using FormatUint_decimal [of "nat (- i)"] by (rule insert_mono)
  then have "plain (CHR ''-'' # FormatUint (nat (- i)))"
    unfolding plain_def by (simp only: list.set(2))
  ultimately show ?thesis by (simp only:)
next
  case False
  then have "Itoa i = FormatUint (nat i)" by (simp add: Itoa_def)
  with plain_FormatUint [of "nat i"] show ?thesis by (simp only:)
qed

lemma plain_keeps:
  assumes "c \<in> set ''-0123456789''"
  shows "\<not> shouldEscape c" and "c \<noteq> CHR ''%''" and "c \<noteq> CHR ''+''" and "c \<noteq> CHR ''&''"
    and "c \<noteq> CHR ''=''" and "c \<noteq> CHR '';''"
proof -
  have "\<forall>c\<in>set ''-0123456789''.
     \<not> shouldEscape c \<and> c \<noteq> CHR ''%'' \<and> c \<noteq> CHR ''+'' \<and> c \<noteq> CHR ''&''
     \<and> c \<noteq> CHR ''='' \<and> c \<noteq> CHR '';''"
    by code_simp
  with assms show "\<not> shouldEscape c" and "c \<noteq> CHR ''%''" and "c \<noteq> CHR ''+''"
    and "c \<noteq> CHR ''&''" and "c \<noteq> CHR ''=''" and "c \<noteq> CHR '';''"
    by blast+
qed

lemma plain_Cons: "plain (c # s) \<longleftrightarrow> c \<in> set ''-0123456789'' \<and> plain s"
  unfolding plain_def by (simp del: set_simps add: list.set(2))

lemma QueryEscape_plain: "plain s \<Longrightarrow> QueryEscape s = s"
proof (induction s)
  case Nil
  then show ?case by simp
next
  case (Cons c s)
  then have c: "c \<in> set ''-0123456789''" and s: "plain s" by (simp_all only: plain_Cons)
  from plain_keeps(1) [OF c] Cons.IH [OF s] show ?case by simp
qed

lemma QueryUnescape_plain: "plain s \<Longrightarrow> QueryUnescape s = Some s"
proof (induction s)
  case Nil
  then show ?case by simp
next
  case (Cons c s)
  then have c: "c \<in> set ''-0123456789''" and s: "plain s" by (simp_all only: plain_Cons)
  from plain_keeps(2,3) [OF c] Cons.IH [OF s] show ?case by simp
qed

lemma plain_no_separator:
  assumes "plain s"
  shows "CHR ''&'' \<notin> set s" and "CHR ''='' \<notin> set s" and "CHR '';'' \<notin> set s"
proof -
  have mem: "c \<in> set ''-0123456789''" if "c \<in> set s" for c
    using assms that unfolding plain_def by (rule subsetD)
  show "CHR ''&'' \<notin> set s" using plain_keeps(4) [OF mem] by blast
  show "CHR ''='' \<notin> set s" using plain_keeps(5) [OF mem] by blast
  show "CHR '';'' \<notin> set s" using plain_keeps(6) [OF mem] by blast
qed

lemma Cut_at:
  assumes "sep \<notin> set front"
  shows "Cut (front @ sep # rest) sep = (front, rest)"
proof -
  from assms have keep: "x \<noteq> sep" if "x \<in> set front" for x using that by auto
  have "takeWhile (\<lambda>c. c \<noteq> sep) (front @ sep # rest) = front"
    using keep by (simp add: takeWhile_append2)
  moreover have "dropWhile (\<lambda>c. c \<noteq> sep) (front @ sep # rest) = sep # rest"
    using keep by (simp add: dropWhile_append2)
  ultimately show ?thesis by (simp add: Cut_def)
qed

lemma Cut_none:
  assumes "sep \<notin> set s"
  shows "Cut s sep = (s, [])"
proof -
  from assms have keep: "x \<noteq> sep" if "x \<in> set s" for x using that by auto
  have "takeWhile (\<lambda>c. c \<noteq> sep) s = s"
    using keep by (simp add: takeWhile_eq_all_conv)
  moreover have "dropWhile (\<lambda>c. c \<noteq> sep) s = []"
    using keep by (simp add: dropWhile_eq_Nil_conv)
  ultimately show ?thesis unfolding Cut_def by (simp only: drop_Nil)
qed

lemma ParseQuery_pair:
  assumes "plain v" and "QueryUnescape k = Some k" and "k \<noteq> []"
    and "CHR ''&'' \<notin> set k" and "CHR ''='' \<notin> set k" and "CHR '';'' \<notin> set k"
  shows "ParseQuery (k @ CHR ''='' # v @ CHR ''&'' # rest) = (k, v) # ParseQuery rest"
    and "ParseQuery (k @ CHR ''='' # v) = [(k, v)]"
proof -
  note sep = plain_no_separator [OF assms(1)]
  have amp: "CHR ''&'' \<notin> set (k @ CHR ''='' # v)" using assms(4) sep(1) by simp
  have semi: "CHR '';'' \<notin> set (k @ CHR ''='' # v)" using assms(6) sep(3) by simp
  have cut1: "Cut ((k @ CHR ''='' # v) @ CHR ''&'' # rest) (CHR ''&'') = (k @ CHR ''='' # v, rest)"
    by (rule Cut_at [OF amp])
  have cut1': "Cut (k @ CHR ''='' # v) (CHR ''&'') = (k @ CHR ''='' # v, [])"
    by (rule Cut_none [OF amp])
  have cut2: "Cut (k @ CHR ''='' # v) (CHR ''='') = (k, v)"
    by (rule Cut_at [OF assms(5)])
  have nil: "ParseQuery [] = []" by (subst ParseQuery.simps) simp
  show "ParseQuery (k @ CHR ''='' # v @ CHR ''&'' # rest) = (k, v) # ParseQuery rest"
    using cut1 cut2 semi assms(2,3) QueryUnescape_plain [OF assms(1)]
    by (subst ParseQuery.simps) (simp add: Let_def)
  show "ParseQuery (k @ CHR ''='' # v) = [(k, v)]"
    using cut1' cut2 semi assms(2,3) QueryUnescape_plain [OF assms(1)] nil
    by (subst ParseQuery.simps) (simp add: Let_def)
qed

lemma Encode_limit_since:
  assumes "plain l" and "plain c"
  shows "Encode [(''limit'', l), (''since'', c)] = ''limit='' @ l @ ''&since='' @ c"
proof -
  have order: "sort_key fst [(''limit'', l), (''since'', c)] = [(''limit'', l), (''since'', c)]"
    by simp
  have keys: "QueryEscape ''limit'' = ''limit''" "QueryEscape ''since'' = ''since''"
    by code_simp+
  have "encodePairs [] [(''limit'', l), (''since'', c)]
      = (QueryEscape ''limit'' @ [CHR ''=''] @ QueryEscape l) @ [CHR ''&'']
          @ QueryEscape ''since'' @ [CHR ''=''] @ QueryEscape c"
    by (simp del: QueryEscape.simps)
  also have "\<dots> = (''limit'' @ [CHR ''=''] @ l) @ [CHR ''&''] @ ''since'' @ [CHR ''=''] @ c"
    by (simp only: keys QueryEscape_plain [OF assms(1)] QueryEscape_plain [OF assms(2)])
  also have "\<dots> = ''limit='' @ l @ ''&since='' @ c" by simp
  finally have pairs: "encodePairs [] [(''limit'', l), (''since'', c)]
      = ''limit='' @ l @ ''&since='' @ c" .
  show ?thesis
    unfolding Encode_def order by (rule pairs)
qed

lemma ParseQuery_limit_since:
  assumes "plain l" and "plain c"
  shows "ParseQuery (''limit='' @ l @ ''&since='' @ c) = [(''limit'', l), (''since'', c)]"
proof -
  have k1: "QueryUnescape ''limit'' = Some ''limit''" and k2: "QueryUnescape ''since'' = Some ''since''"
    by code_simp+
  have "ParseQuery (''limit'' @ CHR ''='' # l @ CHR ''&'' # (''since'' @ CHR ''='' # c))
      = (''limit'', l) # ParseQuery (''since'' @ CHR ''='' # c)"
    by (rule ParseQuery_pair(1) [OF assms(1) k1]) simp_all
  moreover have "ParseQuery (''since'' @ CHR ''='' # c) = [(''since'', c)]"
    by (rule ParseQuery_pair(2) [OF assms(2) k2]) simp_all
  ultimately show ?thesis by simp
qed



text \<open>
  C7 (as amended). For every full page the next-page URL is the URL that
  \<open>location.Get\<close> returns (its scheme and host), with the path of the current request
  and with the current limit and the computed cursor added to its query as \<open>limit\<close>
  and \<open>since\<close>; the query of the current request is not copied. When the location URL
  has no query of its own, the query of the next-page URL is
  \<open>limit=<limit>&since=<cursor>\<close>, and parsing it gives exactly that limit and that cursor.
\<close>

theorem next_url_from_location:
  "Limit paging < int (length messages) \<and> 1 \<le> Limit paging
   \<longrightarrow> (\<exists>page next.
          buildWithPaging ctx paging messages = Inr page
          \<and> paging_Since (Paging page) = ID (last (butlast messages))
          \<and> Next (Paging page) = String next
          \<and> Scheme next = Scheme (Location ctx) \<and> Host next = Host (Location ctx)
          \<and> Path next = Path (RequestURL ctx)
          \<and> RawQuery next
              = Encode (Query (Location ctx)
                        @ [(''limit'', Itoa (Limit paging)),
                           (''since'', FormatUint (paging_Since (Paging page)))])
          \<and> (RawQuery (Location ctx) = []
               \<longrightarrow> RawQuery next
                     = ''limit='' @ Itoa (Limit paging) @ ''&since=''
                         @ FormatUint (paging_Since (Paging page))
                   \<and> Query next
                       = [(''limit'', Itoa (Limit paging)),
                          (''since'', FormatUint (paging_Since (Paging page)))]))"
proof
  assume h: "Limit paging < int (length messages) \<and> 1 \<le> Limit paging"
  let ?c = "ID (last (butlast messages))"
  let ?next = "nextLocation ctx paging ?c"
  let ?page = "\<lparr>Paging = \<lparr>Size = int (length messages) - 1, paging_Limit = Limit paging,
                   Next = nextURL ctx paging ?c, paging_Since = ?c\<rparr>,
         Messages = map ToExternal (butlast messages)\<rparr>"
  from h have build: "buildWithPaging ctx paging messages = Inr ?page"
    by (simp add: buildWithPaging_full)
  have raw: "RawQuery ?next
      = Encode (Query (Location ctx)
                @ [(''limit'', Itoa (Limit paging)), (''since'', FormatUint ?c)])"
    by (simp add: nextLocation_def Add_def)
  have bare: "RawQuery ?next = ''limit='' @ Itoa (Limit paging) @ ''&since='' @ FormatUint ?c
      \<and> Query ?next = [(''limit'', Itoa (Limit paging)), (''since'', FormatUint ?c)]"
    if "RawQuery (Location ctx) = []"
  proof -
    have "ParseQuery [] = []" by (subst ParseQuery.simps) simp
    with that have "Query (Location ctx) = []" by (simp add: Query_def)
    with raw have "RawQuery ?next = ''limit='' @ Itoa (Limit paging) @ ''&since='' @ FormatUint ?c"
      by (simp only: append_Nil Encode_limit_since [OF plain_Itoa plain_FormatUint])
    then show ?thesis
      by (simp only: Query_def ParseQuery_limit_since [OF plain_Itoa plain_FormatUint])
  qed
  have since: "paging_Since (Paging ?page) = ?c" by simp
  show "\<exists>page next.
          buildWithPaging ctx paging messages = Inr page
          \<and> paging_Since (Paging page) = ID (last (butlast messages))
          \<and> Next (Paging page) = String next
          \<and> Scheme next = Scheme (Location ctx) \<and> Host next = Host (Location ctx)
          \<and> Path next = Path (RequestURL ctx)
          \<and> RawQuery next
              = Encode (Query (Location ctx)
                        @ [(''limit'', Itoa (Limit paging)),
                           (''since'', FormatUint (paging_Since (Paging page)))])
          \<and> (RawQuery (Location ctx) = []
               \<longrightarrow> RawQuery next
                     = ''limit='' @ Itoa (Limit paging) @ ''&since=''
                         @ FormatUint (paging_Since (Paging page))
                   \<and> Query next
                       = [(''limit'', Itoa (Limit paging)),
                          (''since'', FormatUint (paging_Since (Paging page)))])"
  proof (intro exI conjI impI)
    show "buildWithPaging ctx paging messages = Inr ?page" by (rule build)
    show "paging_Since (Paging ?page) = ?c" by (rule since)
    show "Next (Paging ?page) = String ?next" by (simp add: nextURL_def)
    show "Scheme ?next = Scheme (Location ctx)" by (simp add: nextLocation_def)
    show "Host ?next = Host (Location ctx)" by (simp add: nextLocation_def)
    show "Path ?next = Path (RequestURL ctx)" by (simp add: nextLocation_def)
    show "RawQuery ?next
        = Encode (Query (Location ctx)
                  @ [(''limit'', Itoa (Limit paging)),
                     (''since'', FormatUint (paging_Since (Paging ?page)))])"
      by (simp only: since raw)
  next
    assume none: "RawQuery (Location ctx) = []"
    show "RawQuery ?next
        = ''limit='' @ Itoa (Limit paging) @ ''&since=''
            @ FormatUint (paging_Since (Paging ?page))"
      using bare [OF none] by (simp only: since)
    show "Query ?next
        = [(''limit'', Itoa (Limit paging)),
           (''since'', FormatUint (paging_Since (Paging ?page)))]"
      using bare [OF none] by (simp only: since)
  qed
qed


theorem next_url_from_location_witness:
  "buildWithPaging ctx0 \<lparr>Limit = 2, Since = 0\<rparr>
      [mkMessage 10 1 ''d'', mkMessage 9 1 ''c'', mkMessage 8 1 ''b''] = Inr page0
   \<and> Next (Paging page0) = ''http://example.com/message?limit=2&since=9''
   \<and> (\<exists>page next.
          buildWithPaging ctx0 \<lparr>Limit = 2, Since = 0\<rparr>
            [mkMessage 10 1 ''d'', mkMessage 9 1 ''c'', mkMessage 8 1 ''b''] = Inr page
          \<and> paging_Since (Paging page)
              = ID (last (butlast [mkMessage 10 1 ''d'', mkMessage 9 1 ''c'', mkMessage 8 1 ''b'']))
          \<and> Next (Paging page) = String next
          \<and> Scheme next = Scheme (Location ctx0) \<and> Host next = Host (Location ctx0)
          \<and> Path next = Path (RequestURL ctx0)
          \<and> RawQuery next
              = Encode (Query (Location ctx0)
                        @ [(''limit'', Itoa (Limit \<lparr>Limit = 2, Since = 0\<rparr>)),
                           (''since'', FormatUint (paging_Since (Paging page)))])
          \<and> (RawQuery (Location ctx0) = []
               \<longrightarrow> RawQuery next
                     = ''limit='' @ Itoa (Limit \<lparr>Limit = 2, Since = 0\<rparr>) @ ''&since=''
                         @ FormatUint (paging_Since (Paging page))
                   \<and> Query next
                       = [(''limit'', Itoa (Limit \<lparr>Limit = 2, Since = 0\<rparr>)),
                          (''since'', FormatUint (paging_Since (Paging page)))]))"
proof -
  have run: "buildWithPaging ctx0 \<lparr>Limit = 2, Since = 0\<rparr>
      [mkMessage 10 1 ''d'', mkMessage 9 1 ''c'', mkMessage 8 1 ''b''] = Inr page0"
    by code_simp
  have "next": "Next (Paging page0) = ''http://example.com/message?limit=2&since=9''"
    by (simp add: page0_def)
  have full: "Limit \<lparr>Limit = 2, Since = 0\<rparr>
        < int (length [mkMessage 10 1 ''d'', mkMessage 9 1 ''c'', mkMessage 8 1 ''b''])
      \<and> 1 \<le> Limit \<lparr>Limit = 2, Since = 0\<rparr>"
    by simp
  from run "next"
    next_url_from_location [where ctx = ctx0 and paging = "\<lparr>Limit = 2, Since = 0\<rparr>"
      and messages = "[mkMessage 10 1 ''d'', mkMessage 9 1 ''c'', mkMessage 8 1 ''b'']",
      THEN mp, OF full]
  show ?thesis by (intro conjI)
qed

theorem next_url_drops_request_query_counterexample:
  "buildWithPaging ctxToken \<lparr>Limit = 2, Since = 0\<rparr>
      [mkMessage 10 1 ''d'', mkMessage 9 1 ''c'', mkMessage 8 1 ''b''] = Inr page0
   \<and> Next (Paging page0) = ''http://example.com/message?limit=2&since=9''
   \<and> String (RequestURL ctxToken) = ''http://example.com/message?limit=2&token=Ctoken''
   \<and> specNextURL ctxToken \<lparr>Limit = 2, Since = 0\<rparr> 9
       = ''http://example.com/message?limit=2&since=9&token=Ctoken''
   \<and> Next (Paging page0) \<noteq> specNextURL ctxToken \<lparr>Limit = 2, Since = 0\<rparr> 9"
proof -
  have run: "buildWithPaging ctxToken \<lparr>Limit = 2, Since = 0\<rparr>
      [mkMessage 10 1 ''d'', mkMessage 9 1 ''c'', mkMessage 8 1 ''b''] = Inr page0"
    by code_simp
  have "next": "Next (Paging page0) = ''http://example.com/message?limit=2&since=9''"
    by (simp add: page0_def)
  have request: "String (RequestURL ctxToken) = ''http://example.com/message?limit=2&token=Ctoken''"
    by code_simp
  have spec: "specNextURL ctxToken \<lparr>Limit = 2, Since = 0\<rparr> 9
       = ''http://example.com/message?limit=2&since=9&token=Ctoken''"
    by code_simp
  have differ: "Next (Paging page0) \<noteq> specNextURL ctxToken \<lparr>Limit = 2, Since = 0\<rparr> 9"
    unfolding "next" spec by simp
  from run "next" request spec differ show ?thesis by (intro conjI)
qed

end
